theory Spec2Isabelle
  imports Complex_Main
begin

section \<open>Numbers and vectors\<close>

text \<open>
  The program computes with IEEE doubles (TypeScript) and 32-bit floats (GLSL).  The
  model reads every number as a real: rounding, infinities and NaN are outside it.
  A \<open>THREE.Vector3\<close> and a GLSL \<open>vec3\<close> are triples of reals.
\<close>

datatype vec3 = Vec3 (vx: real) (vy: real) (vz: real)

text \<open>
  Modelled from the spec: \<open>THREE.MathUtils.clamp(value, min, max)\<close> and the GLSL
  built-in \<open>clamp\<close>, whose bodies are library code outside the sources; the spec's
  \<open>clamp(x, lo, hi)\<close>, the value \<open>x\<close> cut off below at \<open>lo\<close> and above at \<open>hi\<close>.
\<close>

definition clamp :: "real \<Rightarrow> real \<Rightarrow> real \<Rightarrow> real" where
  "clamp v lo hi = max lo (min hi v)"

text \<open>
  Modelled from the spec: the GLSL built-ins \<open>mix\<close>, \<open>length\<close> and \<open>normalize\<close>
  (the shader language's library, outside the sources).  \<open>mix(x, y, a)\<close> is
  \<open>x * (1 - a) + y * a\<close> in every component.  \<open>normalize\<close> divides by the length;
  GLSL leaves the result for the zero vector undefined, here \<open>None\<close>.
\<close>

definition mix :: "vec3 \<Rightarrow> vec3 \<Rightarrow> real \<Rightarrow> vec3" where
  "mix a b t = Vec3 (vx a * (1 - t) + vx b * t)
                    (vy a * (1 - t) + vy b * t)
                    (vz a * (1 - t) + vz b * t)"

definition length3 :: "vec3 \<Rightarrow> real" where
  "length3 v = sqrt (vx v * vx v + vy v * vy v + vz v * vz v)"

definition normalize :: "vec3 \<Rightarrow> vec3 option" where
  "normalize v =
     (if length3 v = 0 then None
      else Some (Vec3 (vx v / length3 v) (vy v / length3 v) (vz v / length3 v)))"

text \<open>
  Modelled from the spec: \<open>Vector3.distanceTo\<close> and \<open>Vector3.lerp\<close> of three.js
  (library code outside the sources): the Euclidean distance, and the spec's
  \<open>lerp(current, target, factor)\<close>, which moves every component by
  \<open>(target - current) * factor\<close>.
\<close>

definition distanceTo :: "vec3 \<Rightarrow> vec3 \<Rightarrow> real" where
  "distanceTo a b =
     sqrt ((vx a - vx b) * (vx a - vx b) + (vy a - vy b) * (vy a - vy b)
           + (vz a - vz b) * (vz a - vz b))"

definition lerp :: "vec3 \<Rightarrow> vec3 \<Rightarrow> real \<Rightarrow> vec3" where
  "lerp a b alpha = Vec3 (vx a + (vx b - vx a) * alpha)
                         (vy a + (vy b - vy a) * alpha)
                         (vz a + (vz b - vz a) * alpha)"

section \<open>The samplers\<close>

text \<open>
  The samplers read the ambient source \<open>Math.random()\<close>.  A run of the program is
  modelled against the sequence \<open>rnd\<close> of the values the source returns: a sampler
  takes the number \<open>k\<close> of calls made so far and returns its point together with
  the number of calls made after it.  The calls are numbered in the order in which
  the source makes them.
\<close>

type_synonym random_source = "nat \<Rightarrow> real"

text \<open>
  \<open>utils/math.ts\<close>:
  \<^verbatim>\<open>export const getRandomSpherePoint = (radius: number): THREE.Vector3 => {
    const u = Math.random();
    const v = Math.random();
    const theta = 2 * Math.PI * u;
    const phi = Math.acos(2 * v - 1);
    const r = Math.cbrt(Math.random()) * radius;
    const sinPhi = Math.sin(phi);
    return new THREE.Vector3(
      r * sinPhi * Math.cos(theta), r * sinPhi * Math.sin(theta), r * Math.cos(phi));
  };\<close>
\<close>

definition getRandomSpherePoint :: "real \<Rightarrow> random_source \<Rightarrow> nat \<Rightarrow> vec3 \<times> nat" where
  "getRandomSpherePoint radius rnd k =
     (let u = rnd k;
          v = rnd (k + 1);
          theta = 2 * pi * u;
          phi = arccos (2 * v - 1);
          r = root 3 (rnd (k + 2)) * radius;
          sinPhi = sin phi
      in (Vec3 (r * sinPhi * cos theta) (r * sinPhi * sin theta) (r * cos phi), k + 3))"

text \<open>
  \<open>Foliage.tsx\<close>, \<open>getWeightedFoliagePoint(height, baseRadius, yOffset)\<close>:
  \<^verbatim>\<open>const r = Math.random();
  const bias = Math.pow(r, 6.0);
  const y = yOffset - (height / 2) + (bias * height);
  const relativeHeight = (y - yOffset + height / 2) / height;
  const radiusAtHeight = baseRadius * (1 - relativeHeight);
  const theta = Math.random() * Math.PI * 2;
  const rRad = radiusAtHeight * (0.8 + Math.random() * 0.3);
  const x = rRad * Math.cos(theta);
  const z = rRad * Math.sin(theta);
  return new THREE.Vector3(x, y, z);\<close>
  The three target samplers of the ornaments below have the same shape.  They divide
  by \<open>height\<close>, which every caller passes as the literal 11 or 12.
  \<open>Math.pow(r, 6.0)\<close> is the sixth power.  With an exponent that is not an integer
  (2.8, 1.5, 2.5 below) \<open>Math.pow\<close> is \<open>powr\<close> on a base \<open>\<ge> 0\<close>, zero at zero;
  for a negative base JavaScript returns NaN, and \<open>Math.random()\<close> returns none.
\<close>

definition getWeightedFoliagePoint ::
    "real \<Rightarrow> real \<Rightarrow> real \<Rightarrow> random_source \<Rightarrow> nat \<Rightarrow> vec3 \<times> nat" where
  "getWeightedFoliagePoint height baseRadius yOffset rnd k =
     (let r = rnd k;
          bias = r ^ 6;
          y = yOffset - (height / 2) + (bias * height);
          relativeHeight = (y - yOffset + height / 2) / height;
          radiusAtHeight = baseRadius * (1 - relativeHeight);
          theta = rnd (k + 1) * pi * 2;
          rRad = radiusAtHeight * (0.8 + rnd (k + 2) * 0.3);
          x = rRad * cos theta;
          z = rRad * sin theta
      in (Vec3 x y z, k + 3))"

text \<open>
  \<open>Ornaments\<close>, \<open>getGiftBoxPoint\<close>: \<open>bias = Math.pow(r, 2.8)\<close>,
  \<open>maxRelativeHeight = 0.6\<close>, \<open>y = yOffset - (height / 2) + (bias * height *
  maxRelativeHeight)\<close>, radial jitter \<open>0.5 + Math.random() * 0.7\<close>.
\<close>

definition getGiftBoxPoint ::
    "real \<Rightarrow> real \<Rightarrow> real \<Rightarrow> random_source \<Rightarrow> nat \<Rightarrow> vec3 \<times> nat" where
  "getGiftBoxPoint height baseRadius yOffset rnd k =
     (let r = rnd k;
          bias = r powr 2.8;
          maxRelativeHeight = 0.6;
          y = yOffset - (height / 2) + (bias * height * maxRelativeHeight);
          relativeHeight = (y - yOffset + height / 2) / height;
          radiusAtHeight = baseRadius * (1 - relativeHeight);
          theta = rnd (k + 1) * pi * 2;
          dist = radiusAtHeight * (0.5 + rnd (k + 2) * 0.7);
          x = dist * cos theta;
          z = dist * sin theta
      in (Vec3 x y z, k + 3))"

text \<open>
  \<open>getSpiralPoint(height, baseRadius, yOffset, phase)\<close>:
  \<^verbatim>\<open>const t = Math.random();
  const biasedT = Math.pow(t, 1.5);
  const maxH = 0.85;
  const relativeHeight = biasedT * maxH;
  const y = yOffset - (height / 2) + (relativeHeight * height);
  const radiusAtHeight = baseRadius * (1 - relativeHeight);
  const turns = 3.5;
  const baseTheta = relativeHeight * Math.PI * 2 * turns + phase;
  const noiseSpread = 0.6;
  const theta = baseTheta + (Math.random() - 0.5) * noiseSpread;
  const r = radiusAtHeight * (0.95 + Math.random() * 0.15);\<close>
\<close>

definition getSpiralPoint ::
    "real \<Rightarrow> real \<Rightarrow> real \<Rightarrow> real \<Rightarrow> random_source \<Rightarrow> nat \<Rightarrow> vec3 \<times> nat" where
  "getSpiralPoint height baseRadius yOffset phase rnd k =
     (let t = rnd k;
          biasedT = t powr 1.5;
          maxH = 0.85;
          relativeHeight = biasedT * maxH;
          y = yOffset - (height / 2) + (relativeHeight * height);
          radiusAtHeight = baseRadius * (1 - relativeHeight);
          turns = 3.5;
          baseTheta = relativeHeight * pi * 2 * turns + phase;
          noiseSpread = 0.6;
          theta = baseTheta + (rnd (k + 1) - 0.5) * noiseSpread;
          r = radiusAtHeight * (0.95 + rnd (k + 2) * 0.15);
          x = r * cos theta;
          z = r * sin theta
      in (Vec3 x y z, k + 3))"

text \<open>
  \<open>getTinyBaublePoint\<close>: \<open>bias = Math.pow(r, 2.5)\<close>, \<open>maxRelativeHeight = 0.9\<close>
  (\<open>// Cap height slightly below top to avoid star collision\<close>), radial jitter
  \<open>0.9 + Math.random() * 0.15\<close>.
\<close>

definition getTinyBaublePoint ::
    "real \<Rightarrow> real \<Rightarrow> real \<Rightarrow> random_source \<Rightarrow> nat \<Rightarrow> vec3 \<times> nat" where
  "getTinyBaublePoint height baseRadius yOffset rnd k =
     (let r = rnd k;
          bias = r powr 2.5;
          maxRelativeHeight = 0.9;
          y = yOffset - (height / 2) + (bias * height * maxRelativeHeight);
          relativeHeight = (y - yOffset + height / 2) / height;
          radiusAtHeight = baseRadius * (1 - relativeHeight);
          theta = rnd (k + 1) * pi * 2;
          rad = radiusAtHeight * (0.9 + rnd (k + 2) * 0.15);
          x = rad * cos theta;
          z = rad * sin theta
      in (Vec3 x y z, k + 3))"

text \<open>
  The inputs of the foliage sampler that land in the bottom half of the height range
  \<open>[yOffset - height / 2, yOffset + height / 2]\<close>: the values \<open>u\<close> in \<open>[0, 1)\<close> of
  the first draw for which the sampled \<open>y\<close> is at most the midpoint \<open>yOffset\<close>.
  The measure of an interval of reals is its length.
\<close>

definition foliageBottomHalf :: "real \<Rightarrow> real \<Rightarrow> real \<Rightarrow> real set" where
  "foliageBottomHalf height baseRadius yOffset =
     {u. 0 \<le> u \<and> u < 1
         \<and> vy (fst (getWeightedFoliagePoint height baseRadius yOffset (\<lambda>_. u) 0)) \<le> yOffset}"

definition interval_length :: "real set \<Rightarrow> real" where
  "interval_length S = Sup S - Inf S"

text \<open>The assembled position of the star topper: \<open>new THREE.Vector3(0, 5.6, 0)\<close>.\<close>

definition topStar_treePos :: vec3 where
  "topStar_treePos = Vec3 0 5.6 0"

section \<open>The point-cloud shaders (Foliage.tsx, SpiralGarland.tsx)\<close>

text \<open>
  Both vertex shaders define
  \<^verbatim>\<open>float easeInOutCubic(float x) {
    return x < 0.5 ? 4.0 * x * x * x : 1.0 - pow(-2.0 * x + 2.0, 3.0) / 2.0; }\<close>
  GLSL's \<open>pow\<close> is \<open>powr\<close>: zero at base zero, undefined below.
\<close>

definition easeInOutCubic :: "real \<Rightarrow> real" where
  "easeInOutCubic x =
     (if x < 0.5 then 4.0 * x * x * x else 1.0 - ((- 2.0) * x + 2.0) powr 3.0 / 2.0)"

text \<open>
  Foliage, \<open>vertexShader\<close>, the first lines of \<open>main\<close>:
  \<^verbatim>\<open>float t = easeInOutCubic(uProgress);
  float delayedT = clamp(t * 1.2 - (aRandom * 0.2), 0.0, 1.0);
  vec3 pos = mix(aScatterPos, aTreePos, delayedT);\<close>
\<close>

definition vertexShader_delayedT :: "real \<Rightarrow> real \<Rightarrow> real" where
  "vertexShader_delayedT uProgress aRandom =
     clamp (easeInOutCubic uProgress * 1.2 - (aRandom * 0.2)) 0.0 1.0"

definition vertexShader_blend :: "real \<Rightarrow> vec3 \<Rightarrow> vec3 \<Rightarrow> real \<Rightarrow> vec3" where
  "vertexShader_blend uProgress aScatterPos aTreePos aRandom =
     mix aScatterPos aTreePos (vertexShader_delayedT uProgress aRandom)"

text \<open>
  The rest of the position computation of the foliage shader, up to the value of
  \<open>pos\<close> that is handed to the model-view matrix:
  \<^verbatim>\<open>float breath = sin(uTime * 1.5 + aRandom * 10.0) * 0.03;
  pos += normalize(pos) * breath * (0.5 + 0.5 * uProgress);
  if (uProgress < 0.9) {
     pos.x += sin(uTime * 0.5 + pos.y) * 0.2 * (1.0 - uProgress);
     pos.y += cos(uTime * 0.3 + pos.x) * 0.2 * (1.0 - uProgress);
  }\<close>
  The second assignment of the conditional reads the \<open>pos.x\<close> the first one wrote.
\<close>

definition vertexShader_breath :: "real \<Rightarrow> real \<Rightarrow> real" where
  "vertexShader_breath uTime aRandom = sin (uTime * 1.5 + aRandom * 10.0) * 0.03"

definition vertexShader_pos :: "real \<Rightarrow> real \<Rightarrow> vec3 \<Rightarrow> vec3 \<Rightarrow> real \<Rightarrow> vec3 option" where
  "vertexShader_pos uTime uProgress aScatterPos aTreePos aRandom =
     (let pos = vertexShader_blend uProgress aScatterPos aTreePos aRandom;
          breath = vertexShader_breath uTime aRandom
      in case normalize pos of
           None \<Rightarrow> None
         | Some n \<Rightarrow>
             let k = breath * (0.5 + 0.5 * uProgress);
                 pos1 = Vec3 (vx pos + vx n * k) (vy pos + vy n * k) (vz pos + vz n * k)
             in Some (if uProgress < 0.9 then
                        let x' = vx pos1 + sin (uTime * 0.5 + vy pos1) * 0.2 * (1.0 - uProgress);
                            y' = vy pos1 + cos (uTime * 0.3 + x') * 0.2 * (1.0 - uProgress)
                        in Vec3 x' y' (vz pos1)
                      else pos1))"

text \<open>
  Garland, \<open>spiralVertexShader\<close>:
  \<^verbatim>\<open>float t = easeInOutCubic(uProgress);
  float delayedT = clamp(t * 1.5 - (aRandom * 0.5), 0.0, 1.0);
  vec3 pos = mix(aScatterPos, aTreePos, delayedT);
  if (uProgress < 0.95) {
     pos.y += sin(uTime + aRandom * 10.0) * 0.1 * (1.0 - uProgress);
  }\<close>
\<close>

definition spiralVertexShader_delayedT :: "real \<Rightarrow> real \<Rightarrow> real" where
  "spiralVertexShader_delayedT uProgress aRandom =
     clamp (easeInOutCubic uProgress * 1.5 - (aRandom * 0.5)) 0.0 1.0"

definition spiralVertexShader_blend :: "real \<Rightarrow> vec3 \<Rightarrow> vec3 \<Rightarrow> real \<Rightarrow> vec3" where
  "spiralVertexShader_blend uProgress aScatterPos aTreePos aRandom =
     mix aScatterPos aTreePos (spiralVertexShader_delayedT uProgress aRandom)"

definition spiralVertexShader_pos :: "real \<Rightarrow> real \<Rightarrow> vec3 \<Rightarrow> vec3 \<Rightarrow> real \<Rightarrow> vec3" where
  "spiralVertexShader_pos uTime uProgress aScatterPos aTreePos aRandom =
     (let pos = spiralVertexShader_blend uProgress aScatterPos aTreePos aRandom
      in if uProgress < 0.95 then
           Vec3 (vx pos) (vy pos + sin (uTime + aRandom * 10.0) * 0.1 * (1.0 - uProgress)) (vz pos)
         else pos)"

section \<open>The progress controller\<close>

datatype TreeState = SCATTERED | TREE_SHAPE

text \<open>
  Modelled from the spec: \<open>easing.damp\<close> of the package \<open>maath\<close>, which the frame
  callbacks call and whose body is not among the sources.  The spec (4.4) gives the
  update as \<open>progress \<leftarrow> target - (target - progress) * exp (- delta / tau)\<close>; the
  arguments are in the order of the call:
  \<open>easing.damp(object, 'value', target, smoothTime, delta)\<close>.
\<close>

definition damp :: "real \<Rightarrow> real \<Rightarrow> real \<Rightarrow> real \<Rightarrow> real" where
  "damp current target smoothTime delta =
     target - (target - current) * exp (- delta / smoothTime)"

text \<open>
  The uniforms of a shader material, as far as the frame callbacks write them:
  \<open>uniforms.uTime.value\<close> and \<open>uniforms.uProgress.value\<close>.
\<close>

record uniforms =
  uTime_value :: real
  uProgress_value :: real

text \<open>
  \<open>Foliage\<close>:
  \<^verbatim>\<open>useFrame((state, delta) => {
    if (shaderRef.current) {
      shaderRef.current.uniforms.uTime.value = state.clock.elapsedTime;
      const targetProgress = treeState === TreeState.TREE_SHAPE ? 1.0 : 0.0;
      easing.damp(shaderRef.current.uniforms.uProgress, 'value', targetProgress, 1.5, delta);
    }
  });\<close>
  \<open>SpiralGarland\<close> is the same with the time constant 1.2.  The flag
  \<open>mounted\<close> says that \<open>shaderRef.current\<close> is set.
\<close>

definition foliage_useFrame :: "bool \<Rightarrow> TreeState \<Rightarrow> real \<Rightarrow> real \<Rightarrow> uniforms \<Rightarrow> uniforms" where
  "foliage_useFrame mounted treeState elapsedTime delta u =
     (if mounted then
        let targetProgress = (if treeState = TREE_SHAPE then 1.0 else 0.0)
        in u\<lparr>uTime_value := elapsedTime,
             uProgress_value := damp (uProgress_value u) targetProgress 1.5 delta\<rparr>
      else u)"

definition garland_useFrame :: "bool \<Rightarrow> TreeState \<Rightarrow> real \<Rightarrow> real \<Rightarrow> uniforms \<Rightarrow> uniforms" where
  "garland_useFrame mounted treeState elapsedTime delta u =
     (if mounted then
        let targetProgress = (if treeState = TREE_SHAPE then 1.0 else 0.0)
        in u\<lparr>uTime_value := elapsedTime,
             uProgress_value := damp (uProgress_value u) targetProgress 1.2 delta\<rparr>
      else u)"

section \<open>Objects\<close>

text \<open>
  \<open>THREE.Vector3\<close> and \<open>THREE.Euler\<close> objects are mutable and the instance
  records of the ornaments hold references to them: \<open>d.currentPos.lerp(...)\<close> changes
  the object that \<open>d.currentPos\<close> refers to.  The model keeps the objects in a
  store.  \<open>cell\<close> gives the three numbers of every object (the angles \<open>x\<close>, \<open>y\<close>,
  \<open>z\<close> for an Euler object), \<open>fresh\<close> is the first reference no \<open>new\<close> has
  returned yet, and \<open>calls\<close> counts the calls of \<open>Math.random()\<close> made so far.
\<close>

type_synonym ref = nat

record world =
  cell :: "ref \<Rightarrow> vec3"
  fresh :: ref
  calls :: nat

text \<open>\<open>new THREE.Vector3(x, y, z)\<close>, \<open>new THREE.Euler(x, y, z)\<close> and \<open>v.clone()\<close>.\<close>

definition new_object :: "vec3 \<Rightarrow> world \<Rightarrow> ref \<times> world" where
  "new_object v w =
     (fresh w, w\<lparr>cell := (cell w)(fresh w := v), fresh := Suc (fresh w)\<rparr>)"

text \<open>An assignment to the components of an existing object.\<close>

definition set_cell :: "ref \<Rightarrow> vec3 \<Rightarrow> world \<Rightarrow> world" where
  "set_cell r v w = w\<lparr>cell := (cell w)(r := v)\<rparr>"

text \<open>One call of \<open>Math.random()\<close>.\<close>

definition random :: "random_source \<Rightarrow> world \<Rightarrow> real \<times> world" where
  "random rnd w = (rnd (calls w), w\<lparr>calls := Suc (calls w)\<rparr>)"

text \<open>
  A call of a sampler: it makes its calls of \<open>Math.random()\<close> and returns a new
  \<open>Vector3\<close>.
\<close>

definition sample :: "(random_source \<Rightarrow> nat \<Rightarrow> vec3 \<times> nat) \<Rightarrow> random_source \<Rightarrow> world \<Rightarrow> ref \<times> world" where
  "sample sampler rnd w =
     (let (v, k) = sampler rnd (calls w) in new_object v (w\<lparr>calls := k\<rparr>))"

text \<open>
  The instance records.  \<open>OrnamentGroup\<close> builds
  \<open>{treePos, scatterPos, currentPos, scale, rotation, rotationSpeed}\<close>;
  \<open>GiftBoxGroup\<close> builds the same fields and \<open>color\<close>, \<open>ribbonColor\<close>.
\<close>

record ornament =
  treePos :: ref
  scatterPos :: ref
  currentPos :: ref
  scale :: ref
  rotation :: ref
  rotationSpeed :: real

record giftBox = ornament +
  color :: string
  ribbonColor :: string

text \<open>
  The module-level temporary object \<open>const tempObject = new THREE.Object3D()\<close> with its
  own \<open>position\<close>, \<open>rotation\<close> and \<open>scale\<close> objects.
\<close>

record object3D =
  position3D :: ref
  rotation3D :: ref
  scale3D :: ref

section \<open>Building the gift boxes and the ornaments\<close>

text \<open>
  \<open>GiftBoxGroup\<close>, inside \<open>useMemo\<close>.  The palette entries are
  \<open>{color, name, weight}\<close>, here triples.
  \<^verbatim>\<open>const pickColor = () => {
      const r = Math.random();
      let sum = 0;
      for (const p of boxPalette) {
          sum += p.weight;
          if (r <= sum) return p;
      }
      return boxPalette[0];
  };\<close>
  The running \<open>sum\<close> is the argument \<open>acc\<close> of the loop.
\<close>

definition minDistance :: real where
  "minDistance = 2.0"

definition boxPalette :: "(string \<times> string \<times> real) list" where
  "boxPalette =
     [(''#7a1f1f'', ''burgundy'', 0.31),
      (''#f2e8d5'', ''cream'', 0.31),
      (''#0f3b26'', ''emerald'', 0.32),
      (''#d4af37'', ''gold'', 0.06)]"

fun pickColor_loop ::
    "real \<Rightarrow> real \<Rightarrow> (string \<times> string \<times> real) list \<Rightarrow> (string \<times> string \<times> real) option" where
  "pickColor_loop r acc [] = None"
| "pickColor_loop r acc (p # ps) =
     (let acc' = acc + snd (snd p)
      in if r \<le> acc' then Some p else pickColor_loop r acc' ps)"

definition pickColor :: "real \<Rightarrow> string \<times> string \<times> real" where
  "pickColor r =
     (case pickColor_loop r 0 boxPalette of
        Some p \<Rightarrow> p
      | None \<Rightarrow> (''#7a1f1f'', ''burgundy'', 0.31))"

text \<open>
  \<^verbatim>\<open>let ribbonColor = '#8b0000';
  if (paletteChoice.name === 'burgundy') ribbonColor = '#d4af37';
  if (paletteChoice.name === 'emerald') ribbonColor = '#d4af37';
  if (paletteChoice.name === 'gold') ribbonColor = '#7a1f1f';
  if (paletteChoice.name === 'cream') ribbonColor = '#7a1f1f';\<close>
\<close>

definition ribbonColorFor :: "string \<Rightarrow> string" where
  "ribbonColorFor name =
     (let c0 = ''#8b0000'';
          c1 = (if name = ''burgundy'' then ''#d4af37'' else c0);
          c2 = (if name = ''emerald'' then ''#d4af37'' else c1);
          c3 = (if name = ''gold'' then ''#7a1f1f'' else c2);
          c4 = (if name = ''cream'' then ''#7a1f1f'' else c3)
      in c4)"

text \<open>
  The rejection loop of the scatter position:
  \<^verbatim>\<open>let sPos = new THREE.Vector3();
  let validPosition = false;
  let attempts = 0;
  while (!validPosition && attempts < 50) {
    sPos = getRandomSpherePoint(18);
    validPosition = true;
    for (const existingItem of items) {
       if (sPos.distanceTo(existingItem.scatterPos) < minDistance) {
           validPosition = false;
           break;
       }
    }
    attempts++;
  }
  if (!validPosition) sPos = getRandomSpherePoint(22);\<close>
  The inner loop leaves \<open>validPosition\<close> true exactly when no existing item is
  closer than \<open>minDistance\<close>.
\<close>

function scatterLoop ::
    "giftBox list \<Rightarrow> random_source \<Rightarrow> ref \<Rightarrow> bool \<Rightarrow> nat \<Rightarrow> world \<Rightarrow> ref \<times> bool \<times> nat \<times> world" where
  "scatterLoop items rnd sPos validPosition attempts w =
     (if \<not> validPosition \<and> attempts < 50 then
        let (sPos', w') = sample (getRandomSpherePoint 18) rnd w;
            validPosition' =
              list_all (\<lambda>existingItem.
                  \<not> distanceTo (cell w' sPos') (cell w' (scatterPos existingItem)) < minDistance)
                items
        in scatterLoop items rnd sPos' validPosition' (attempts + 1) w'
      else (sPos, validPosition, attempts, w))"
  by pat_completeness auto
termination
  by (relation "measure (\<lambda>(items, rnd, sPos, validPosition, attempts, w). 50 - attempts)") auto

definition placeScatter ::
    "giftBox list \<Rightarrow> random_source \<Rightarrow> world \<Rightarrow> ref \<times> bool \<times> nat \<times> world" where
  "placeScatter items rnd w =
     (let (sPos0, w1) = new_object (Vec3 0 0 0) w;
          (sPos1, validPosition, attempts, w2) = scatterLoop items rnd sPos0 False 0 w1
      in if \<not> validPosition then
           let (sPos2, w3) = sample (getRandomSpherePoint 22) rnd w2
           in (sPos2, validPosition, attempts, w3)
         else (sPos1, validPosition, attempts, w2))"

text \<open>
  One round of the loop \<open>for (let i = 0; i < count; i++)\<close>: the target point, the
  scatter point, the scale, the colours, and the pushed record
  \<^verbatim>\<open>items.push({
    treePos: tPos, scatterPos: sPos, currentPos: sPos.clone(),
    scale: new THREE.Vector3(scale, scale, scale),
    rotation: new THREE.Euler(Math.random() * Math.PI, Math.random() * Math.PI, 0),
    rotationSpeed: (Math.random() - 0.5) * 0.02,
    color: boxColor, ribbonColor: ribbonColor });\<close>
  Beside the record the model returns the values of \<open>attempts\<close> and
  \<open>validPosition\<close> at the exit of the rejection loop; they are not program data.
\<close>

definition giftBoxItem ::
    "giftBox list \<Rightarrow> random_source \<Rightarrow> world \<Rightarrow> giftBox \<times> (nat \<times> bool) \<times> world" where
  "giftBoxItem items rnd w =
     (let (tPos, w1) = sample (getGiftBoxPoint 12 5.5 (- 1)) rnd w;
          (sPos, validPosition, attempts, w2) = placeScatter items rnd w1;
          (r1, w3) = random rnd w2;
          scale_value = 0.6 + r1 * 0.4;
          (r2, w4) = random rnd w3;
          paletteChoice = pickColor r2;
          boxColor = fst paletteChoice;
          ribbon = ribbonColorFor (fst (snd paletteChoice));
          (cur, w5) = new_object (cell w4 sPos) w4;
          (sc, w6) = new_object (Vec3 scale_value scale_value scale_value) w5;
          (r3, w7) = random rnd w6;
          (r4, w8) = random rnd w7;
          (rot, w9) = new_object (Vec3 (r3 * pi) (r4 * pi) 0) w8;
          (r5, w10) = random rnd w9
      in (\<lparr>treePos = tPos, scatterPos = sPos, currentPos = cur, scale = sc, rotation = rot,
           rotationSpeed = (r5 - 0.5) * 0.02, color = boxColor, ribbonColor = ribbon\<rparr>,
          (attempts, validPosition), w10))"

fun giftBoxData ::
    "nat \<Rightarrow> random_source \<Rightarrow> world \<Rightarrow> giftBox list \<times> (nat \<times> bool) list \<times> world" where
  "giftBoxData 0 rnd w = ([], [], w)"
| "giftBoxData (Suc i) rnd w =
     (let (items, trace, w1) = giftBoxData i rnd w;
          (item, t, w2) = giftBoxItem items rnd w1
      in (items @ [item], trace @ [t], w2))"

text \<open>
  \<open>OrnamentGroup\<close>, inside \<open>useMemo\<close>:
  \<^verbatim>\<open>return Array.from({ length: count }).map(() => {
    const tPos = getSpiralPoint(11, 4.8, -1, spiralPhase);
    const sPos = getRandomSpherePoint(20);
    const scale = (Math.random() * 0.4 + 0.6) * scaleMultiplier;
    return {
      treePos: tPos, scatterPos: sPos, currentPos: sPos.clone(),
      scale: new THREE.Vector3(scale, scale, scale),
      rotation: new THREE.Euler(Math.random() * Math.PI, Math.random() * Math.PI, 0),
      rotationSpeed: (Math.random() - 0.5) * 0.02 };
  });\<close>
\<close>

definition ornamentItem :: "real \<Rightarrow> real \<Rightarrow> random_source \<Rightarrow> world \<Rightarrow> ornament \<times> world" where
  "ornamentItem scaleMultiplier spiralPhase rnd w =
     (let (tPos, w1) = sample (getSpiralPoint 11 4.8 (- 1) spiralPhase) rnd w;
          (sPos, w2) = sample (getRandomSpherePoint 20) rnd w1;
          (r1, w3) = random rnd w2;
          scale_value = (r1 * 0.4 + 0.6) * scaleMultiplier;
          (cur, w4) = new_object (cell w3 sPos) w3;
          (sc, w5) = new_object (Vec3 scale_value scale_value scale_value) w4;
          (r2, w6) = random rnd w5;
          (r3, w7) = random rnd w6;
          (rot, w8) = new_object (Vec3 (r2 * pi) (r3 * pi) 0) w7;
          (r4, w9) = random rnd w8
      in (\<lparr>treePos = tPos, scatterPos = sPos, currentPos = cur, scale = sc, rotation = rot,
           rotationSpeed = (r4 - 0.5) * 0.02\<rparr>, w9))"

fun ornamentData :: "nat \<Rightarrow> real \<Rightarrow> real \<Rightarrow> random_source \<Rightarrow> world \<Rightarrow> ornament list \<times> world" where
  "ornamentData 0 scaleMultiplier spiralPhase rnd w = ([], w)"
| "ornamentData (Suc i) scaleMultiplier spiralPhase rnd w =
     (let (items, w1) = ornamentData i scaleMultiplier spiralPhase rnd w;
          (item, w2) = ornamentItem scaleMultiplier spiralPhase rnd w1
      in (items @ [item], w2))"

section \<open>Ornaments: the host-side lag factor\<close>

text \<open>
  \<open>OrnamentGroup.useFrame\<close>:
  \<^verbatim>\<open>const lerpFactor = THREE.MathUtils.clamp(delta * (2.0 / (weight + 0.5)), 0, 1);\<close>
  A JavaScript division by zero gives an infinity or NaN; the model returns \<open>None\<close>
  where the divisor is zero.
\<close>

definition ornamentLerpFactor :: "real \<Rightarrow> real \<Rightarrow> real option" where
  "ornamentLerpFactor delta weight =
     (if weight + 0.5 = 0 then None
      else Some (clamp (delta * (2.0 / (weight + 0.5))) 0 1))"

section \<open>The per-frame update of the instances\<close>

text \<open>
  What a frame hands to the instanced mesh for one instance,
  \<open>setMatrixAt(i, tempObject.matrix)\<close>: the matrix that \<open>updateMatrix()\<close> composes
  from the position, the rotation and the scale of \<open>tempObject\<close>, kept here as
  these three values.
\<close>

type_synonym transform = "vec3 \<times> vec3 \<times> vec3"

definition add_x :: "real \<Rightarrow> vec3 \<Rightarrow> vec3" where
  "add_x a v = Vec3 (vx v + a) (vy v) (vz v)"

definition add_y :: "real \<Rightarrow> vec3 \<Rightarrow> vec3" where
  "add_y a v = Vec3 (vx v) (vy v + a) (vz v)"

text \<open>
  \<open>OrnamentGroup.useFrame\<close>, the callback of \<open>data.forEach((d, i) => ...)\<close>:
  \<^verbatim>\<open>const target = targetIsTree ? d.treePos : d.scatterPos;
  d.currentPos.lerp(target, lerpFactor);
  if (!targetIsTree) {
      d.currentPos.y += Math.sin(state.clock.elapsedTime + i) * 0.005;
  }
  d.rotation.x += d.rotationSpeed;
  d.rotation.y += d.rotationSpeed;
  tempObject.position.copy(d.currentPos);
  tempObject.rotation.set(d.rotation.x, d.rotation.y, d.rotation.z);
  tempObject.scale.copy(d.scale);
  tempObject.updateMatrix();
  meshRef.current!.setMatrixAt(i, tempObject.matrix);\<close>
  The callback assigns no field of \<open>d\<close>; it changes objects that fields of \<open>d\<close>
  refer to.
\<close>

definition ornament_step ::
    "object3D \<Rightarrow> bool \<Rightarrow> real \<Rightarrow> real \<Rightarrow> ornament \<Rightarrow> nat \<Rightarrow> world \<Rightarrow> world \<times> transform" where
  "ornament_step tempObject targetIsTree lerpFactor elapsedTime d i w =
     (let target = (if targetIsTree then treePos d else scatterPos d);
          w1 = set_cell (currentPos d)
                 (lerp (cell w (currentPos d)) (cell w target) lerpFactor) w;
          w2 = (if \<not> targetIsTree then
                  set_cell (currentPos d)
                    (add_y (sin (elapsedTime + real i) * 0.005) (cell w1 (currentPos d))) w1
                else w1);
          w3 = set_cell (rotation d) (add_x (rotationSpeed d) (cell w2 (rotation d))) w2;
          w4 = set_cell (rotation d) (add_y (rotationSpeed d) (cell w3 (rotation d))) w3;
          w5 = set_cell (position3D tempObject) (cell w4 (currentPos d)) w4;
          w6 = set_cell (rotation3D tempObject) (cell w5 (rotation d)) w5;
          w7 = set_cell (scale3D tempObject) (cell w6 (scale d)) w6
      in (w7, (cell w7 (position3D tempObject), cell w7 (rotation3D tempObject),
               cell w7 (scale3D tempObject))))"

text \<open>
  \<open>GiftBoxGroup.useFrame\<close>, the callback of \<open>data.forEach\<close>:
  \<^verbatim>\<open>const target = targetIsTree ? d.treePos : d.scatterPos;
  d.currentPos.lerp(target, lerpFactor);
  if (!targetIsTree) {
     d.currentPos.y += Math.sin(state.clock.elapsedTime + i) * 0.005;
     d.rotation.x += d.rotationSpeed;
     d.rotation.y += d.rotationSpeed;
  } else {
     d.rotation.y += d.rotationSpeed * 0.1;
  }
  tempObject.position.copy(d.currentPos);
  tempObject.rotation.copy(d.rotation);
  tempObject.scale.copy(d.scale);
  tempObject.updateMatrix();
  boxRef.current!.setMatrixAt(i, tempObject.matrix);
  ribbonRef.current!.setMatrixAt(i, tempObject.matrix);\<close>
\<close>

definition giftBox_step ::
    "object3D \<Rightarrow> bool \<Rightarrow> real \<Rightarrow> real \<Rightarrow> giftBox \<Rightarrow> nat \<Rightarrow> world \<Rightarrow> world \<times> transform" where
  "giftBox_step tempObject targetIsTree lerpFactor elapsedTime d i w =
     (let target = (if targetIsTree then treePos d else scatterPos d);
          w1 = set_cell (currentPos d)
                 (lerp (cell w (currentPos d)) (cell w target) lerpFactor) w;
          w4 = (if \<not> targetIsTree then
                  let w2 = set_cell (currentPos d)
                             (add_y (sin (elapsedTime + real i) * 0.005) (cell w1 (currentPos d))) w1;
                      w3 = set_cell (rotation d)
                             (add_x (rotationSpeed d) (cell w2 (rotation d))) w2
                  in set_cell (rotation d) (add_y (rotationSpeed d) (cell w3 (rotation d))) w3
                else
                  set_cell (rotation d)
                    (add_y (rotationSpeed d * 0.1) (cell w1 (rotation d))) w1);
          w5 = set_cell (position3D tempObject) (cell w4 (currentPos d)) w4;
          w6 = set_cell (rotation3D tempObject) (cell w5 (rotation d)) w5;
          w7 = set_cell (scale3D tempObject) (cell w6 (scale d)) w6
      in (w7, (cell w7 (position3D tempObject), cell w7 (rotation3D tempObject),
               cell w7 (scale3D tempObject))))"

text \<open>\<open>data.forEach((d, i) => ...)\<close>, from the index \<open>i\<close> on.\<close>

fun forEach ::
    "('d \<Rightarrow> nat \<Rightarrow> world \<Rightarrow> world \<times> transform) \<Rightarrow> 'd list \<Rightarrow> nat \<Rightarrow> world \<Rightarrow> world \<times> transform list" where
  "forEach f [] i w = (w, [])"
| "forEach f (d # ds) i w =
     (let (w1, m) = f d i w;
          (w2, ms) = forEach f ds (Suc i) w1
      in (w2, m # ms))"

text \<open>
  The two frame callbacks.  \<open>mounted\<close> says that the mesh references are set
  (\<open>if (!meshRef.current) return;\<close>).  The result is the store after the frame and
  the transforms written to the instanced mesh, in the order of the instances;
  \<open>None\<close> where the lag factor is undefined.
  \<^verbatim>\<open>const targetIsTree = treeState === TreeState.TREE_SHAPE;
  const lerpFactor = THREE.MathUtils.clamp(delta * (2.0 / (weight + 0.5)), 0, 1);  // ornaments
  const lerpFactor = THREE.MathUtils.clamp(delta * 1.2, 0, 1);                     // gift boxes\<close>
\<close>

definition ornament_useFrame ::
    "bool \<Rightarrow> TreeState \<Rightarrow> real \<Rightarrow> real \<Rightarrow> real \<Rightarrow> object3D \<Rightarrow> ornament list \<Rightarrow> world
      \<Rightarrow> (world \<times> transform list) option" where
  "ornament_useFrame mounted treeState weight elapsedTime delta tempObject data w =
     (if \<not> mounted then Some (w, [])
      else
        let targetIsTree = (treeState = TREE_SHAPE)
        in case ornamentLerpFactor delta weight of
             None \<Rightarrow> None
           | Some lerpFactor \<Rightarrow>
               Some (forEach (ornament_step tempObject targetIsTree lerpFactor elapsedTime)
                       data 0 w))"

definition giftBox_useFrame ::
    "bool \<Rightarrow> TreeState \<Rightarrow> real \<Rightarrow> real \<Rightarrow> object3D \<Rightarrow> giftBox list \<Rightarrow> world
      \<Rightarrow> world \<times> transform list" where
  "giftBox_useFrame mounted treeState elapsedTime delta tempObject data w =
     (if \<not> mounted then (w, [])
      else
        let targetIsTree = (treeState = TREE_SHAPE);
            lerpFactor = clamp (delta * 1.2) 0 1
        in forEach (giftBox_step tempObject targetIsTree lerpFactor elapsedTime) data 0 w)"

section \<open>Notions used in the statements\<close>

text \<open>
  \<open>extends w w'\<close>: the store \<open>w'\<close> comes after \<open>w\<close> by allocation and draws only;
  every object of \<open>w\<close> has kept its contents.
\<close>

definition extends :: "world \<Rightarrow> world \<Rightarrow> bool" where
  "extends w w' \<longleftrightarrow>
     fresh w \<le> fresh w' \<and> calls w \<le> calls w' \<and> (\<forall>r. r < fresh w \<longrightarrow> cell w' r = cell w r)"

text \<open>
  The objects an instance record refers to; \<open>separate\<close>: the objects of the
  instances and of \<open>tempObject\<close> are pairwise different objects; \<open>written\<close>: the
  objects a frame may assign to.
\<close>

definition refs :: "'a ornament_scheme \<Rightarrow> ref list" where
  "refs d = [treePos d, scatterPos d, currentPos d, scale d, rotation d]"

definition separate :: "object3D \<Rightarrow> 'a ornament_scheme list \<Rightarrow> bool" where
  "separate tempObject data \<longleftrightarrow>
     distinct ([position3D tempObject, rotation3D tempObject, scale3D tempObject]
               @ concat (map refs data))"

definition written :: "object3D \<Rightarrow> 'a ornament_scheme list \<Rightarrow> ref set" where
  "written tempObject data =
     {position3D tempObject, rotation3D tempObject, scale3D tempObject}
       \<union> currentPos ` set data \<union> rotation ` set data"

text \<open>
  \<open>placed rnd w items trace i\<close>: what the rejection loop guarantees for the
  \<open>i\<close>-th gift box, with \<open>attempts\<close> and \<open>validPosition\<close> as the loop left them:
  between 1 and 50 candidates were drawn; an accepted candidate is at least
  \<open>minDistance\<close> away from the scatter position of every earlier box; otherwise all
  50 attempts were used and the scatter position is a point of
  \<open>getRandomSpherePoint(22)\<close>.
\<close>

definition placed :: "random_source \<Rightarrow> world \<Rightarrow> giftBox list \<Rightarrow> (nat \<times> bool) list \<Rightarrow> nat \<Rightarrow> bool" where
  "placed rnd w items trace i \<longleftrightarrow>
     (let p = cell w (scatterPos (items ! i));
          attempts = fst (trace ! i);
          validPosition = snd (trace ! i)
      in 1 \<le> attempts \<and> attempts \<le> 50
       \<and> (validPosition \<longrightarrow>
            (\<forall>j<i. minDistance \<le> distanceTo p (cell w (scatterPos (items ! j)))))
       \<and> (\<not> validPosition \<longrightarrow>
            attempts = 50 \<and> (\<exists>k. p = fst (getRandomSpherePoint 22 rnd k))))"

text \<open>
  The candidates of the rejection loop and the test they are put to.
  \<open>separated w items q\<close>: the point \<open>q\<close> is at least \<open>minDistance\<close> away from the
  scatter position of every box of \<open>items\<close>.  \<open>candidate rnd k j\<close>: the \<open>j\<close>-th
  point of \<open>getRandomSpherePoint(18)\<close> (counted from 0) drawn by a loop that starts
  when \<open>Math.random()\<close> has been called \<open>k\<close> times; each candidate takes three calls.
  \<open>randomCalls trace\<close>: the calls of \<open>Math.random()\<close> made for the boxes of a trace:
  per box three for the tree position, three per candidate, three more for a fallback
  point, and five for colour, scale, rotation and rotation speed.
\<close>

definition separated :: "world \<Rightarrow> giftBox list \<Rightarrow> vec3 \<Rightarrow> bool" where
  "separated w items q \<longleftrightarrow>
     (\<forall>existingItem \<in> set items.
        minDistance \<le> distanceTo q (cell w (scatterPos existingItem)))"

definition candidate :: "random_source \<Rightarrow> nat \<Rightarrow> nat \<Rightarrow> vec3" where
  "candidate rnd k j = fst (getRandomSpherePoint 18 rnd (k + 3 * j))"

definition randomCalls :: "(nat \<times> bool) list \<Rightarrow> nat" where
  "randomCalls trace = sum_list (map (\<lambda>t. 8 + 3 * fst t + (if snd t then 0 else 3)) trace)"

text \<open>
  \<open>tested rnd c0 w items trace i\<close>: how the \<open>i\<close>-th gift box came to its scatter
  position, for a construction started after \<open>c0\<close> calls of \<open>Math.random()\<close>.  The
  loop of this box starts after the calls made for the earlier boxes and the three
  calls of its tree position.  Every candidate before the last one failed the distance
  test against the earlier boxes; \<open>validPosition\<close> says whether the last candidate
  passed it; an accepted box sits at its last candidate; a box that was not accepted
  sits at the point of \<open>getRandomSpherePoint(22)\<close> drawn right after its candidates.
\<close>

definition tested :: "random_source \<Rightarrow> nat \<Rightarrow> world \<Rightarrow> giftBox list \<Rightarrow> (nat \<times> bool) list \<Rightarrow> nat \<Rightarrow> bool" where
  "tested rnd c0 w items trace i \<longleftrightarrow>
     (let p = cell w (scatterPos (items ! i));
          attempts = fst (trace ! i);
          validPosition = snd (trace ! i);
          k = c0 + randomCalls (take i trace) + 3;
          earlier = take i items
      in (\<forall>j<attempts - 1. \<not> separated w earlier (candidate rnd k j))
       \<and> (validPosition \<longleftrightarrow> separated w earlier (candidate rnd k (attempts - 1)))
       \<and> (validPosition \<longrightarrow> p = candidate rnd k (attempts - 1))
       \<and> (\<not> validPosition \<longrightarrow> p = fst (getRandomSpherePoint 22 rnd (k + 3 * attempts))))"

section \<open>Properties\<close>

lemma clamp_unit: "0 \<le> clamp v 0 1 \<and> clamp v 0 1 \<le> 1"
  by (simp add: clamp_def)

lemma clamp_mono: "v \<le> w \<Longrightarrow> clamp v lo hi \<le> clamp w lo hi"
  by (auto simp: clamp_def max_def min_def)

text \<open>
  C8.  For every frame time \<open>delta \<ge> 0\<close> and every weight \<open>\<ge> 0\<close>, weight zero
  included, the divisor \<open>weight + 0.5\<close> of the lag factor is strictly positive, the
  factor is defined and is \<open>clamp (delta * (2 / (weight + 0.5))) 0 1\<close>, it lies in
  \<open>[0, 1]\<close>, and for a fixed \<open>delta\<close> a heavier weight never gives a larger factor.
\<close>

theorem ornamentLerpFactor_guarded:
  assumes "0 \<le> delta" and "0 \<le> weight"
  shows "0 < weight + 0.5
    \<and> (\<exists>f. ornamentLerpFactor delta weight = Some f
          \<and> f = clamp (delta * (2.0 / (weight + 0.5))) 0 1
          \<and> 0 \<le> f \<and> f \<le> 1
          \<and> (\<forall>w' g. weight \<le> w' \<and> ornamentLerpFactor delta w' = Some g \<longrightarrow> g \<le> f))"
proof -
  have pos: "0 < weight + 0.5" using assms(2) by simp
  have mono: "g \<le> clamp (delta * (2.0 / (weight + 0.5))) 0 1"
    if "weight \<le> w'" and "ornamentLerpFactor delta w' = Some g" for w' g
  proof -
    have pos': "0 < w' + 0.5" using that(1) assms(2) by simp
    have g: "g = clamp (delta * (2.0 / (w' + 0.5))) 0 1"
      using that(2) pos' by (simp add: ornamentLerpFactor_def)
    have "2.0 / (w' + 0.5) \<le> 2.0 / (weight + 0.5)"
      using pos pos' that(1) by (simp add: frac_le)
    then have "delta * (2.0 / (w' + 0.5)) \<le> delta * (2.0 / (weight + 0.5))"
      using assms(1) by (rule mult_left_mono)
    then show ?thesis unfolding g by (rule clamp_mono)
  qed
  show ?thesis
    using pos mono clamp_unit [of "delta * (2.0 / (weight + 0.5))"]
    by (simp add: ornamentLerpFactor_def)
qed

theorem ornamentLerpFactor_guarded_witness:
  "(0::real) \<le> 1/10 \<and> (0::real) \<le> 0
    \<and> ornamentLerpFactor (1/10) 0 = Some (2/5)
    \<and> ornamentLerpFactor (1/10) (1/2) = Some (1/5)"
proof -
  have "ornamentLerpFactor (1/10) 0 = Some (2/5)"
    using ornamentLerpFactor_guarded [of "1/10" 0]
    by (simp add: ornamentLerpFactor_def clamp_def)
  moreover have "ornamentLerpFactor (1/10) (1/2) = Some (1/5)"
    by (simp add: ornamentLerpFactor_def clamp_def)
  ultimately show ?thesis by simp
qed

subsection \<open>The phase-staggered blend at the two ends\<close>

lemma easeInOutCubic_one: "easeInOutCubic 1 = 1"
  by (simp add: easeInOutCubic_def)

lemma easeInOutCubic_zero: "easeInOutCubic 0 = 0"
  by (simp add: easeInOutCubic_def)

lemma mix_one: "mix a b 1 = b"
  by (simp add: mix_def)

lemma mix_zero: "mix a b 0 = a"
  by (simp add: mix_def)

lemma vertexShader_delayedT_ends:
  assumes "0 \<le> phase" and "phase < 1"
  shows "vertexShader_delayedT 1 phase = 1" and "vertexShader_delayedT 0 phase = 0"
  using assms
  by (simp_all add: vertexShader_delayedT_def easeInOutCubic_one easeInOutCubic_zero clamp_def)

lemma spiralVertexShader_delayedT_ends:
  assumes "0 \<le> phase" and "phase < 1"
  shows "spiralVertexShader_delayedT 1 phase = 1" and "spiralVertexShader_delayedT 0 phase = 0"
  using assms
  by (simp_all add: spiralVertexShader_delayedT_def easeInOutCubic_one easeInOutCubic_zero
      clamp_def)

text \<open>
  C1.  For every element phase in \<open>[0, 1)\<close>: at progress 1 the delayed factor of the
  foliage shader (\<open>k = 1.2\<close>, spread 0.2) and of the garland shader (\<open>k = 1.5\<close>,
  spread 0.5) is 1 and the blended position \<open>mix(scatterPos, targetPos, delayedT)\<close>
  is the target position; at progress 0 the factor is 0 and the blended position is
  the scatter position.
\<close>

theorem blend_reaches_endpoints:
  assumes "0 \<le> phase" and "phase < 1"
  shows "vertexShader_delayedT 1 phase = 1
       \<and> vertexShader_blend 1 aScatterPos aTreePos phase = aTreePos
       \<and> vertexShader_delayedT 0 phase = 0
       \<and> vertexShader_blend 0 aScatterPos aTreePos phase = aScatterPos
       \<and> spiralVertexShader_delayedT 1 phase = 1
       \<and> spiralVertexShader_blend 1 aScatterPos aTreePos phase = aTreePos
       \<and> spiralVertexShader_delayedT 0 phase = 0
       \<and> spiralVertexShader_blend 0 aScatterPos aTreePos phase = aScatterPos"
  using vertexShader_delayedT_ends [OF assms] spiralVertexShader_delayedT_ends [OF assms]
  by (simp add: vertexShader_blend_def spiralVertexShader_blend_def mix_one mix_zero)

theorem blend_reaches_endpoints_witness:
  "(0::real) \<le> 1/2 \<and> (1/2::real) < 1
    \<and> vertexShader_blend 1 (Vec3 7 8 9) (Vec3 1 2 3) (1/2) = Vec3 1 2 3
    \<and> vertexShader_blend 0 (Vec3 7 8 9) (Vec3 1 2 3) (1/2) = Vec3 7 8 9
    \<and> spiralVertexShader_blend 1 (Vec3 7 8 9) (Vec3 1 2 3) (1/2) = Vec3 1 2 3
    \<and> spiralVertexShader_blend 0 (Vec3 7 8 9) (Vec3 1 2 3) (1/2) = Vec3 7 8 9"
  using blend_reaches_endpoints [of "1/2" "Vec3 7 8 9" "Vec3 1 2 3"]
  by simp

subsection \<open>The progress controller\<close>

lemma damp_towards_one:
  assumes "0 < tau" and "0 \<le> delta" and "0 \<le> p" and "p \<le> 1"
  shows "p \<le> damp p 1 tau delta \<and> damp p 1 tau delta \<le> 1"
proof -
  have e: "0 < exp (- delta / tau)" "exp (- delta / tau) \<le> 1"
    using assms(1,2) by simp_all
  have "(1 - p) * exp (- delta / tau) \<le> (1 - p) * 1"
    using e(2) assms(4) by (intro mult_left_mono) simp_all
  moreover have "0 \<le> (1 - p) * exp (- delta / tau)"
    using e(1) assms(4) by simp
  ultimately show ?thesis by (simp add: damp_def)
qed

lemma damp_towards_zero:
  assumes "0 < tau" and "0 \<le> delta" and "0 \<le> p" and "p \<le> 1"
  shows "0 \<le> damp p 0 tau delta \<and> damp p 0 tau delta \<le> p"
proof -
  have e: "0 < exp (- delta / tau)" "exp (- delta / tau) \<le> 1"
    using assms(1,2) by simp_all
  have "p * exp (- delta / tau) \<le> p * 1"
    using e(2) assms(3) by (intro mult_left_mono) simp_all
  moreover have "0 \<le> p * exp (- delta / tau)"
    using e(1) assms(3) by simp
  ultimately show ?thesis by (simp add: damp_def)
qed

lemma foliage_useFrame_progress:
  "uProgress_value (foliage_useFrame mounted treeState elapsedTime delta u) =
     (if mounted then damp (uProgress_value u) (if treeState = TREE_SHAPE then 1 else 0) 1.5 delta
      else uProgress_value u)"
  by (simp add: foliage_useFrame_def)

lemma garland_useFrame_progress:
  "uProgress_value (garland_useFrame mounted treeState elapsedTime delta u) =
     (if mounted then damp (uProgress_value u) (if treeState = TREE_SHAPE then 1 else 0) 1.2 delta
      else uProgress_value u)"
  by (simp add: garland_useFrame_def)

text \<open>
  C2.  The update step keeps the family progress in \<open>[0, 1]\<close> and never overshoots:
  for every \<open>delta \<ge> 0\<close>, however large, and a progress in \<open>[0, 1]\<close> before the
  frame, the progress after the foliage frame and after the garland frame is in
  \<open>[0, 1]\<close>; toward the tree shape (target 1) it does not decrease and does not exceed
  1, toward the scattered state (target 0) it does not increase and does not drop
  below 0.  The same holds of the update formula for every time constant
  \<open>tau > 0\<close>.
\<close>

theorem progress_invariant:
  assumes "0 \<le> delta" and "0 \<le> uProgress_value u" and "uProgress_value u \<le> 1"
    and "0 < tau"
  shows "(let p = uProgress_value u;
              f = uProgress_value (foliage_useFrame mounted treeState elapsedTime delta u);
              g = uProgress_value (garland_useFrame mounted treeState elapsedTime delta u)
          in 0 \<le> f \<and> f \<le> 1 \<and> 0 \<le> g \<and> g \<le> 1
           \<and> (treeState = TREE_SHAPE \<longrightarrow> p \<le> f \<and> p \<le> g)
           \<and> (treeState = SCATTERED \<longrightarrow> f \<le> p \<and> g \<le> p)
           \<and> p \<le> damp p 1 tau delta \<and> damp p 1 tau delta \<le> 1
           \<and> 0 \<le> damp p 0 tau delta \<and> damp p 0 tau delta \<le> p)"
proof -
  let ?p = "uProgress_value u"
  have one: "?p \<le> damp ?p 1 t delta \<and> damp ?p 1 t delta \<le> 1" if "0 < t" for t
    using that assms(1-3) by (rule damp_towards_one)
  have zero: "0 \<le> damp ?p 0 t delta \<and> damp ?p 0 t delta \<le> ?p" if "0 < t" for t
    using that assms(1-3) by (rule damp_towards_zero)
  have t15: "(0::real) < 1.5" and t12: "(0::real) < 1.2" by simp_all
  show ?thesis
  proof (cases treeState)
    case SCATTERED
    then show ?thesis
      using zero [OF t15] zero [OF t12] zero [OF assms(4)] one [OF assms(4)] assms(2,3)
      by (simp add: foliage_useFrame_progress garland_useFrame_progress Let_def)
  next
    case TREE_SHAPE
    then show ?thesis
      using one [OF t15] one [OF t12] zero [OF assms(4)] one [OF assms(4)] assms(2,3)
      by (simp add: foliage_useFrame_progress garland_useFrame_progress Let_def)
  qed
qed

theorem progress_invariant_witness:
  "uProgress_value (foliage_useFrame True TREE_SHAPE 3 0
       \<lparr>uTime_value = 0, uProgress_value = 1/2\<rparr>) = 1/2
    \<and> uProgress_value (garland_useFrame True SCATTERED 3 0
       \<lparr>uTime_value = 0, uProgress_value = 1/2\<rparr>) = 1/2
    \<and> damp (1/2) 1 1 0 = 1/2"
  using progress_invariant [of 0 "\<lparr>uTime_value = 0, uProgress_value = 1/2\<rparr>" 1
      True TREE_SHAPE 3]
  by (simp add: foliage_useFrame_def garland_useFrame_def damp_def)

lemma exp_minus_one_bounds:
  "(3678/10000 :: real) < exp (- 1) \<and> exp (- 1) < (3680/10000 :: real)"
proof -
  obtain t :: real where t: "\<bar>t\<bar> \<le> \<bar>- 1 :: real\<bar>"
    and eq: "exp (- 1 :: real) = (\<Sum>m<8. ((- 1) ^ m) / fact m) + (exp t / fact 8) * (- 1) ^ 8"
    using Maclaurin_exp_le [of "- 1" 8] by blast
  have s: "(\<Sum>m<8. ((- 1 :: real) ^ m) / fact m) = 103/280"
    by (simp add: eval_nat_numeral fact_numeral)
  have "exp t \<le> exp 1" using t by simp
  then have le3: "exp t \<le> 3" using exp_le by linarith
  have f8: "fact 8 = (40320 :: real)" by (simp add: eval_nat_numeral)
  have r: "exp (- 1 :: real) = 103/280 + exp t / 40320"
    using eq s f8 by simp
  have d1: "0 < exp t / 40320" by simp
  have d2: "exp t / 40320 \<le> 3 / 40320" using le3 by simp
  show ?thesis using r d1 d2 by linarith
qed

text \<open>
  C4.  With the time constant 1.0, progress 0 and target 1 (the assembled state): one
  update with \<open>delta = 1.0\<close> gives \<open>1 - exp (- 1)\<close>, within 0.001 of 0.632, and a
  further update with \<open>delta = 2.0\<close> gives \<open>1 - exp (- 3)\<close>, within 0.001 of 0.950.
\<close>

theorem damp_scenario:
  "damp 0 1 1.0 1.0 = 1 - exp (- 1)
   \<and> damp (damp 0 1 1.0 1.0) 1 1.0 2.0 = 1 - exp (- 3)
   \<and> \<bar>damp 0 1 1.0 1.0 - 0.632\<bar> < 0.001
   \<and> \<bar>damp (damp 0 1 1.0 1.0) 1 1.0 2.0 - 0.950\<bar> < 0.001"
proof -
  have a: "damp 0 1 1.0 1.0 = 1 - exp (- 1)" by (simp add: damp_def)
  have "exp (- 1 :: real) * exp (- 2) = exp (- 3)"
    by (simp add: exp_add [symmetric])
  then have b: "damp (damp 0 1 1.0 1.0) 1 1.0 2.0 = 1 - exp (- 3)"
    by (simp add: damp_def)
  have e3: "exp (- 3 :: real) = exp (- 1) ^ 3"
    by (simp add: exp_of_nat_mult [symmetric])
  have lo: "(3678/10000 :: real) ^ 3 \<le> exp (- 1) ^ 3"
    using exp_minus_one_bounds by (intro power_mono) simp_all
  have hi: "exp (- 1 :: real) ^ 3 \<le> (3680/10000) ^ 3"
    using exp_minus_one_bounds by (intro power_mono) simp_all
  have c: "\<bar>damp 0 1 1.0 1.0 - 0.632\<bar> < 0.001"
    unfolding a using exp_minus_one_bounds by (simp add: abs_less_iff)
  have d: "\<bar>damp (damp 0 1 1.0 1.0) 1 1.0 2.0 - 0.950\<bar> < 0.001"
    unfolding b e3 using lo hi by (simp add: abs_less_iff power3_eq_cube)
  show ?thesis using a b c d by blast
qed

subsection \<open>The samplers\<close>

lemma getRandomSpherePoint_length:
  assumes "0 \<le> radius" and "0 \<le> rnd (k + 2)"
  shows "length3 (fst (getRandomSpherePoint radius rnd k)) = root 3 (rnd (k + 2)) * radius"
proof -
  define rho where "rho = root 3 (rnd (k + 2)) * radius"
  define phi where "phi = arccos (2 * rnd (k + 1) - 1)"
  define th where "th = 2 * pi * rnd k"
  have rho0: "0 \<le> rho" using assms by (simp add: rho_def)
  have "(rho * sin phi * cos th) * (rho * sin phi * cos th)
        + (rho * sin phi * sin th) * (rho * sin phi * sin th)
        + (rho * cos phi) * (rho * cos phi)
      = rho^2 * ((sin phi)^2 * ((cos th)^2 + (sin th)^2) + (cos phi)^2)"
    by algebra
  also have "\<dots> = rho^2" by simp
  finally have "length3 (fst (getRandomSpherePoint radius rnd k)) = sqrt (rho^2)"
    by (simp add: getRandomSpherePoint_def Let_def length3_def rho_def phi_def th_def)
  then show ?thesis using rho0 by (simp add: rho_def)
qed

text \<open>
  The deterministic content of the scatter sampler: with draws \<open>u\<close>, \<open>v\<close>, \<open>w\<close> in
  \<open>[0, 1)\<close> the point has the spherical coordinates \<open>theta = 2 * pi * u\<close>,
  \<open>phi = arccos (2 * v - 1)\<close> and radial distance \<open>root 3 w * radius\<close>, which is
  below the radius, so the point is in the ball.
\<close>

lemma getRandomSpherePoint_in_ball:
  assumes "0 < radius"
    and "0 \<le> rnd k \<and> rnd k < 1"
    and "0 \<le> rnd (k + 1) \<and> rnd (k + 1) < 1"
    and "0 \<le> rnd (k + 2) \<and> rnd (k + 2) < 1"
  shows "(let theta = 2 * pi * rnd k;
              phi = arccos (2 * rnd (k + 1) - 1);
              rho = root 3 (rnd (k + 2)) * radius
          in getRandomSpherePoint radius rnd k
               = (Vec3 (rho * sin phi * cos theta) (rho * sin phi * sin theta) (rho * cos phi),
                  k + 3)
           \<and> 0 \<le> theta \<and> theta < 2 * pi \<and> 0 \<le> phi \<and> phi \<le> pi
           \<and> length3 (fst (getRandomSpherePoint radius rnd k)) = rho
           \<and> 0 \<le> rho \<and> rho < radius)"
proof -
  have len: "length3 (fst (getRandomSpherePoint radius rnd k)) = root 3 (rnd (k + 2)) * radius"
    using assms(1,4) by (intro getRandomSpherePoint_length) simp_all
  have "root 3 (rnd (k + 2)) < root 3 1"
    using assms(4) by (subst real_root_less_iff) simp_all
  then have lt: "root 3 (rnd (k + 2)) * radius < radius"
    using assms(1) by simp
  have arg: "- 1 \<le> 2 * rnd (k + 1) - 1" "2 * rnd (k + 1) - 1 \<le> 1"
    using assms(3) by simp_all
  have phi: "0 \<le> arccos (2 * rnd (k + 1) - 1)" "arccos (2 * rnd (k + 1) - 1) \<le> pi"
    using arg by (simp_all add: arccos_lbound arccos_ubound)
  have th: "0 \<le> 2 * pi * rnd k" "2 * pi * rnd k < 2 * pi"
    using assms(2) by simp_all
  have rho0: "0 \<le> root 3 (rnd (k + 2)) * radius"
    using assms(1,4) by simp
  show ?thesis
    unfolding Let_def using len lt phi th rho0
    by (simp add: getRandomSpherePoint_def Let_def)
qed

lemma root6_half_bounds: "(89/100::real) < root 6 (1/2) \<and> root 6 (1/2) < 9/10"
proof -
  have "((89/100)^6 :: real) < 1/2" by (simp add: power_divide)
  then have "root 6 ((89/100)^6) < root 6 (1/2)"
    by (subst real_root_less_iff) simp_all
  moreover have "(1/2 :: real) < (9/10)^6" by (simp add: power_divide)
  then have "root 6 (1/2) < root 6 ((9/10)^6)"
    by (subst real_root_less_iff) simp_all
  ultimately show ?thesis by (simp add: real_root_power_cancel)
qed

lemma getWeightedFoliagePoint_y:
  "vy (fst (getWeightedFoliagePoint height baseRadius yOffset rnd k))
     = yOffset - height / 2 + rnd k ^ 6 * height"
  by (simp add: getWeightedFoliagePoint_def Let_def)

lemma sixth_power_le_half:
  assumes "0 \<le> (u::real)"
  shows "u ^ 6 \<le> 1/2 \<longleftrightarrow> u \<le> root 6 (1/2)"
proof -
  have "u ^ 6 \<le> 1/2 \<longleftrightarrow> root 6 (u ^ 6) \<le> root 6 (1/2)"
    by (subst real_root_le_iff) simp_all
  also have "root 6 (u ^ 6) = u"
    using assms by (simp add: real_root_power_cancel)
  finally show ?thesis .
qed

lemma foliage_bottom_half_iff:
  assumes "0 < height" and "0 \<le> rnd k"
  shows "vy (fst (getWeightedFoliagePoint height baseRadius yOffset rnd k)) \<le> yOffset
           \<longleftrightarrow> rnd k \<le> root 6 (1/2)"
proof -
  have "yOffset - height / 2 + rnd k ^ 6 * height \<le> yOffset
          \<longleftrightarrow> rnd k ^ 6 * height \<le> (1/2) * height"
    by (simp add: algebra_simps)
  also have "\<dots> \<longleftrightarrow> rnd k ^ 6 \<le> 1/2"
    using assms(1) by (rule mult_le_cancel_right_pos)
  also have "\<dots> \<longleftrightarrow> rnd k \<le> root 6 (1/2)"
    using assms(2) by (rule sixth_power_le_half)
  finally show ?thesis by (simp add: getWeightedFoliagePoint_y)
qed

lemma foliageBottomHalf_interval:
  assumes "0 < height"
  shows "foliageBottomHalf height baseRadius yOffset = {0 .. root 6 (1/2)}"
proof -
  have lt: "u < 1" if "u \<le> root 6 (1/2)" for u :: real
    using that root6_half_bounds by linarith
  have iff: "vy (fst (getWeightedFoliagePoint height baseRadius yOffset (\<lambda>_. u) 0)) \<le> yOffset
               \<longleftrightarrow> u \<le> root 6 (1/2)" if "0 \<le> u" for u
    using assms that by (rule foliage_bottom_half_iff)
  show ?thesis
  proof (rule set_eqI)
    fix u :: real
    show "u \<in> foliageBottomHalf height baseRadius yOffset \<longleftrightarrow> u \<in> {0 .. root 6 (1/2)}"
      using iff [of u] lt [of u] by (auto simp: foliageBottomHalf_def)
  qed
qed

lemma interval_length_closed: "a \<le> b \<Longrightarrow> interval_length {a .. b} = b - a"
  by (simp add: interval_length_def)

text \<open>
  C6, as the code has it.  For the foliage sampler (bias exponent 6) with a positive
  height: a draw \<open>u\<close> in \<open>[0, 1)\<close> gives a \<open>y\<close> in the bottom half of the range exactly
  when \<open>u \<le> root 6 (1/2)\<close>; the set of such inputs is the interval
  \<open>[0, root 6 (1/2)]\<close>, whose length lies strictly between 0.89 and 0.90.  So at least
  89 percent of the uniform input measure lands in the bottom half, and less than 90.
\<close>

theorem foliage_bottom_half_share:
  assumes "0 < height"
  shows "(\<forall>rnd k. 0 \<le> rnd k \<and> rnd k < 1 \<longrightarrow>
            (vy (fst (getWeightedFoliagePoint height baseRadius yOffset rnd k)) \<le> yOffset
               \<longleftrightarrow> rnd k \<le> root 6 (1/2)))
       \<and> foliageBottomHalf height baseRadius yOffset = {0 .. root 6 (1/2)}
       \<and> interval_length (foliageBottomHalf height baseRadius yOffset) = root 6 (1/2)
       \<and> 89/100 < interval_length (foliageBottomHalf height baseRadius yOffset)
       \<and> interval_length (foliageBottomHalf height baseRadius yOffset) < 9/10"
proof -
  have nn: "(0::real) \<le> root 6 (1/2)" by simp
  have len: "interval_length (foliageBottomHalf height baseRadius yOffset) = root 6 (1/2)"
    using interval_length_closed [OF nn]
    by (simp add: foliageBottomHalf_interval [OF assms])
  show ?thesis
    using foliage_bottom_half_iff [OF assms] foliageBottomHalf_interval [OF assms]
      root6_half_bounds
    unfolding len by blast
qed

theorem foliage_bottom_half_share_witness:
  "(0::real) < 12
   \<and> foliageBottomHalf 12 4.5 (- 1) = {0 .. root 6 (1/2)}
   \<and> vy (fst (getWeightedFoliagePoint 12 4.5 (- 1) (\<lambda>_. 0) 0)) = - 7
   \<and> (0::real) \<le> root 6 (1/2)"
  using foliage_bottom_half_share [of 12 "4.5" "- 1"]
  by (simp add: getWeightedFoliagePoint_def)

text \<open>
  C6, as the spec states it, fails: for the foliage call
  \<open>getWeightedFoliagePoint(12, 4.5, -1)\<close> the input 0.9, which is below 0.95, lands
  above the midpoint \<open>y = -1\<close>, and the measure of the inputs that land in the bottom
  half is not 0.95 or more.
\<close>

theorem foliage_bottom_half_not_95:
  "9/10 \<notin> foliageBottomHalf 12 4.5 (- 1)
   \<and> \<not> 95/100 \<le> interval_length (foliageBottomHalf 12 4.5 (- 1))"
proof -
  have h: "(0::real) < 12" by simp
  have nn: "(0::real) \<le> root 6 (1/2)" by simp
  have set_eq: "foliageBottomHalf 12 4.5 (- 1) = {0 .. root 6 (1/2)}"
    by (rule foliageBottomHalf_interval [OF h])
  have "interval_length (foliageBottomHalf 12 4.5 (- 1)) = root 6 (1/2)"
    unfolding set_eq using interval_length_closed [OF nn] by simp
  then show ?thesis
    unfolding set_eq using root6_half_bounds by simp
qed

lemma powr_unit_le_one:
  fixes r :: real
  assumes "0 \<le> r" and "r < 1" and "0 < a"
  shows "r powr a \<le> 1"
proof -
  have "r powr a \<le> 1 powr a"
    using assms by (intro powr_mono2) simp_all
  then show ?thesis by simp
qed

text \<open>
  C10.  Every ornament target is capped strictly below the star: for every random
  source with values in \<open>[0, 1)\<close>, \<open>getSpiralPoint(11, 4.8, -1, phase)\<close> returns
  \<open>y \<le> 2.85\<close>, \<open>getTinyBaublePoint(11, 4.6, -1)\<close> returns \<open>y \<le> 3.4\<close> and
  \<open>getGiftBoxPoint(12, 5.5, -1)\<close> returns \<open>y \<le> 0.2\<close>; each is below the star's
  \<open>y = 5.6\<close>, so none of the points is the star's assembled position.
\<close>

theorem ornament_targets_below_star:
  assumes "\<And>i. 0 \<le> rnd i \<and> rnd i < 1"
  shows "vy (fst (getSpiralPoint 11 4.8 (- 1) phase rnd k)) \<le> 2.85
       \<and> vy (fst (getTinyBaublePoint 11 4.6 (- 1) rnd k)) \<le> 3.4
       \<and> vy (fst (getGiftBoxPoint 12 5.5 (- 1) rnd k)) \<le> 0.2
       \<and> vy (fst (getSpiralPoint 11 4.8 (- 1) phase rnd k)) < vy topStar_treePos
       \<and> vy (fst (getTinyBaublePoint 11 4.6 (- 1) rnd k)) < vy topStar_treePos
       \<and> vy (fst (getGiftBoxPoint 12 5.5 (- 1) rnd k)) < vy topStar_treePos
       \<and> fst (getSpiralPoint 11 4.8 (- 1) phase rnd k) \<noteq> topStar_treePos
       \<and> fst (getTinyBaublePoint 11 4.6 (- 1) rnd k) \<noteq> topStar_treePos
       \<and> fst (getGiftBoxPoint 12 5.5 (- 1) rnd k) \<noteq> topStar_treePos"
proof -
  have r: "0 \<le> rnd k" "rnd k < 1" using assms by auto
  have a: "rnd k powr 1.5 \<le> 1" using r by (intro powr_unit_le_one) simp_all
  have b: "rnd k powr 2.5 \<le> 1" using r by (intro powr_unit_le_one) simp_all
  have c: "rnd k powr 2.8 \<le> 1" using r by (intro powr_unit_le_one) simp_all
  have s: "vy (fst (getSpiralPoint 11 4.8 (- 1) phase rnd k)) \<le> 2.85"
    using a by (simp add: getSpiralPoint_def Let_def)
  have t: "vy (fst (getTinyBaublePoint 11 4.6 (- 1) rnd k)) \<le> 3.4"
    using b by (simp add: getTinyBaublePoint_def Let_def)
  have g: "vy (fst (getGiftBoxPoint 12 5.5 (- 1) rnd k)) \<le> 0.2"
    using c by (simp add: getGiftBoxPoint_def Let_def)
  have star: "vy topStar_treePos = 5.6" by (simp add: topStar_treePos_def)
  have s': "vy (fst (getSpiralPoint 11 4.8 (- 1) phase rnd k)) < vy topStar_treePos"
    using s unfolding star by simp
  have t': "vy (fst (getTinyBaublePoint 11 4.6 (- 1) rnd k)) < vy topStar_treePos"
    using t unfolding star by simp
  have g': "vy (fst (getGiftBoxPoint 12 5.5 (- 1) rnd k)) < vy topStar_treePos"
    using g unfolding star by simp
  show ?thesis using s t g s' t' g' by auto
qed

theorem ornament_targets_below_star_witness:
  "vy (fst (getSpiralPoint 11 4.8 (- 1) 0 (\<lambda>_. 0) 0)) = - 13/2
   \<and> vy (fst (getTinyBaublePoint 11 4.6 (- 1) (\<lambda>_. 0) 0)) = - 13/2
   \<and> vy (fst (getGiftBoxPoint 12 5.5 (- 1) (\<lambda>_. 0) 0)) = - 7
   \<and> fst (getGiftBoxPoint 12 5.5 (- 1) (\<lambda>_. 0) 0) \<noteq> topStar_treePos"
  using ornament_targets_below_star [of "\<lambda>_. 0" 0 0]
  by (simp add: getSpiralPoint_def getTinyBaublePoint_def getGiftBoxPoint_def)

subsection \<open>Building the gift boxes and the ornaments\<close>

lemma refs_members:
  "treePos d \<in> set (refs d)" "scatterPos d \<in> set (refs d)" "currentPos d \<in> set (refs d)"
  "scale d \<in> set (refs d)" "rotation d \<in> set (refs d)"
  by (simp_all add: refs_def)

lemma refs_in_concat: "e \<in> set ds \<Longrightarrow> set (refs e) \<subseteq> set (concat (map refs ds))"
  by auto

declare scatterLoop.simps [simp del]

lemma extends_refl: "extends w w"
  by (simp add: extends_def)

lemma extends_trans: "extends a b \<Longrightarrow> extends b c \<Longrightarrow> extends a c"
  by (auto simp: extends_def)

lemma new_object_props:
  assumes "new_object v w = (r, w')"
  shows "r = fresh w" "fresh w' = Suc (fresh w)" "calls w' = calls w" "cell w' r = v"
    "extends w w'"
  using assms by (auto simp: new_object_def extends_def)

lemma random_props:
  assumes "random rnd w = (x, w')"
  shows "x = rnd (calls w)" "fresh w' = fresh w" "calls w' = Suc (calls w)" "cell w' = cell w"
    "extends w w'"
  using assms by (auto simp: random_def extends_def)

lemma sampler_calls:
  "snd (getRandomSpherePoint radius rnd k) = k + 3"
  "snd (getGiftBoxPoint h b y rnd k) = k + 3"
  "snd (getSpiralPoint h b y ph rnd k) = k + 3"
  by (simp_all add: getRandomSpherePoint_def getGiftBoxPoint_def getSpiralPoint_def Let_def)

lemma sample_props:
  assumes "sample s rnd w = (r, w')" and "snd (s rnd (calls w)) = calls w + 3"
  shows "r = fresh w" "fresh w' = Suc (fresh w)" "calls w' = calls w + 3"
    "cell w' r = fst (s rnd (calls w))" "extends w w'"
  using assms by (auto simp: sample_def new_object_def extends_def split_beta Let_def)

lemma scatterLoop_props:
  assumes "attempts \<le> 50"
  shows "case scatterLoop items rnd sPos validPosition attempts w of
           (s', v', a', w') \<Rightarrow>
             extends w w' \<and> attempts \<le> a' \<and> a' \<le> 50
             \<and> calls w' = calls w + 3 * (a' - attempts)
             \<and> fresh w' = fresh w + (a' - attempts)
             \<and> (a' = attempts \<longrightarrow> s' = sPos \<and> v' = validPosition \<and> w' = w)
             \<and> (attempts < a' \<longrightarrow> fresh w \<le> s' \<and> s' < fresh w'
                   \<and> v' = list_all (\<lambda>e. \<not> distanceTo (cell w' s') (cell w' (scatterPos e))
                                         < minDistance) items)
             \<and> (\<not> v' \<longrightarrow> a' = 50)
             \<and> (\<not> validPosition \<and> attempts < 50 \<longrightarrow> attempts < a')"
  using assms
proof (induction items rnd sPos validPosition attempts w rule: scatterLoop.induct)
  case (1 items rnd sPos validPosition attempts w)
  show ?case
  proof (cases "\<not> validPosition \<and> attempts < 50")
    case False
    then have eq: "scatterLoop items rnd sPos validPosition attempts w
        = (sPos, validPosition, attempts, w)"
      by (subst scatterLoop.simps) auto
    show ?thesis
      unfolding eq using False "1.prems" by (auto simp: extends_refl)
  next
    case True
    obtain s1 w1 where smp: "sample (getRandomSpherePoint 18) rnd w = (s1, w1)"
      by (cases "sample (getRandomSpherePoint 18) rnd w")
    define v1 where "v1 = list_all (\<lambda>e. \<not> distanceTo (cell w1 s1) (cell w1 (scatterPos e))
                                         < minDistance) items"
    have sp: "s1 = fresh w" "fresh w1 = Suc (fresh w)" "calls w1 = calls w + 3" "extends w w1"
      using sample_props [OF smp] sampler_calls(1) by simp_all
    have unfold: "scatterLoop items rnd sPos validPosition attempts w
        = scatterLoop items rnd s1 v1 (attempts + 1) w1"
      using True smp by (subst scatterLoop.simps) (simp add: v1_def)
    obtain s' v' a' w' where res: "scatterLoop items rnd s1 v1 (attempts + 1) w1 = (s', v', a', w')"
      by (cases "scatterLoop items rnd s1 v1 (attempts + 1) w1")
    have le: "attempts + 1 \<le> 50" using True by simp
    have IH: "extends w1 w' \<and> attempts + 1 \<le> a' \<and> a' \<le> 50
             \<and> calls w' = calls w1 + 3 * (a' - (attempts + 1))
             \<and> fresh w' = fresh w1 + (a' - (attempts + 1))
             \<and> (a' = attempts + 1 \<longrightarrow> s' = s1 \<and> v' = v1 \<and> w' = w1)
             \<and> (attempts + 1 < a' \<longrightarrow> fresh w1 \<le> s' \<and> s' < fresh w'
                   \<and> v' = list_all (\<lambda>e. \<not> distanceTo (cell w' s') (cell w' (scatterPos e))
                                         < minDistance) items)
             \<and> (\<not> v' \<longrightarrow> a' = 50)
             \<and> (\<not> v1 \<and> attempts + 1 < 50 \<longrightarrow> attempts + 1 < a')"
      using "1.IH" [OF True smp [symmetric] refl v1_def le] unfolding res prod.case .
    have ih: "extends w1 w'" "attempts + 1 \<le> a'" "a' \<le> 50"
      "calls w' = calls w1 + 3 * (a' - (attempts + 1))"
      "fresh w' = fresh w1 + (a' - (attempts + 1))"
      "a' = attempts + 1 \<longrightarrow> s' = s1 \<and> v' = v1 \<and> w' = w1"
      "attempts + 1 < a' \<longrightarrow> fresh w1 \<le> s' \<and> s' < fresh w'
                   \<and> v' = list_all (\<lambda>e. \<not> distanceTo (cell w' s') (cell w' (scatterPos e))
                                         < minDistance) items"
      "\<not> v' \<longrightarrow> a' = 50"
      using IH by blast+
    have ext: "extends w w'" using sp(4) ih(1) by (rule extends_trans)
    have last: "fresh w \<le> s' \<and> s' < fresh w'
                   \<and> v' = list_all (\<lambda>e. \<not> distanceTo (cell w' s') (cell w' (scatterPos e))
                                         < minDistance) items"
    proof (cases "a' = attempts + 1")
      case True
      then have "s' = s1 \<and> v' = v1 \<and> w' = w1" using ih(6) by blast
      then show ?thesis using sp(1,2) v1_def by simp
    next
      case False
      then have "attempts + 1 < a'" using ih(2) by linarith
      then have "fresh w1 \<le> s' \<and> s' < fresh w'
                   \<and> v' = list_all (\<lambda>e. \<not> distanceTo (cell w' s') (cell w' (scatterPos e))
                                         < minDistance) items"
        using ih(7) by blast
      then show ?thesis using sp(2) by simp
    qed
    have c1: "attempts \<le> a' \<and> a' \<le> 50" using ih(2,3) by linarith
    have c2: "calls w' = calls w + 3 * (a' - attempts)"
      using ih(2,4) sp(3) by linarith
    have c3: "fresh w' = fresh w + (a' - attempts)"
      using ih(2,5) sp(2) by linarith
    have c4: "a' \<noteq> attempts" "attempts < a'" using ih(2) by linarith+
    show ?thesis
      unfolding unfold res prod.case
      using ext c1 c2 c3 c4 ih(8) last by blast
  qed
qed


lemma extends_cell: "extends w w' \<Longrightarrow> r < fresh w \<Longrightarrow> cell w' r = cell w r"
  by (simp add: extends_def)

lemma extends_fresh: "extends w w' \<Longrightarrow> fresh w \<le> fresh w'"
  by (simp add: extends_def)

lemma placeScatter_props:
  assumes res: "placeScatter items rnd w = (sPos, valid, attempts, w')"
  shows "extends w w'" and "1 \<le> attempts" and "attempts \<le> 50"
    and "calls w' = calls w + 3 * attempts + (if valid then 0 else 3)"
    and "fresh w \<le> sPos" and "sPos < fresh w'"
    and "valid \<longrightarrow> list_all (\<lambda>e. \<not> distanceTo (cell w' sPos) (cell w' (scatterPos e))
                                     < minDistance) items"
    and "\<not> valid \<longrightarrow> attempts = 50
           \<and> cell w' sPos = fst (getRandomSpherePoint 22 rnd (calls w + 150))"
proof -
  obtain s0 w1 where e0: "new_object (Vec3 0 0 0) w = (s0, w1)"
    by (cases "new_object (Vec3 0 0 0) w")
  obtain s1 v a w2 where e1: "scatterLoop items rnd s0 False 0 w1 = (s1, v, a, w2)"
    using prod_cases4 by blast
  have n0: "fresh w1 = Suc (fresh w)" "calls w1 = calls w" "extends w w1"
    using new_object_props [OF e0] by simp_all
  have z: "(0::nat) \<le> 50" by simp
  have L: "extends w1 w2 \<and> 0 \<le> a \<and> a \<le> 50
             \<and> calls w2 = calls w1 + 3 * (a - 0)
             \<and> fresh w2 = fresh w1 + (a - 0)
             \<and> (a = 0 \<longrightarrow> s1 = s0 \<and> v = False \<and> w2 = w1)
             \<and> (0 < a \<longrightarrow> fresh w1 \<le> s1 \<and> s1 < fresh w2
                   \<and> v = list_all (\<lambda>e. \<not> distanceTo (cell w2 s1) (cell w2 (scatterPos e))
                                         < minDistance) items)
             \<and> (\<not> v \<longrightarrow> a = 50)
             \<and> (\<not> False \<and> (0::nat) < 50 \<longrightarrow> 0 < a)"
    using scatterLoop_props [OF z, where items = items and rnd = rnd and sPos = s0
          and validPosition = False and w = w1]
      unfolding e1 prod.case .
  have l0: "extends w1 w2" "a \<le> 50" "calls w2 = calls w1 + 3 * (a - 0)"
    "fresh w2 = fresh w1 + (a - 0)" "\<not> False \<and> (0::nat) < 50 \<longrightarrow> 0 < a" "\<not> v \<longrightarrow> a = 50"
    using L by blast+
  have l: "extends w1 w2" "a \<le> 50" "calls w2 = calls w1 + 3 * a" "fresh w2 = fresh w1 + a"
    "0 < a" "\<not> v \<longrightarrow> a = 50"
    using l0 by simp_all
  have lv: "fresh w1 \<le> s1 \<and> s1 < fresh w2
                   \<and> v = list_all (\<lambda>e. \<not> distanceTo (cell w2 s1) (cell w2 (scatterPos e))
                                         < minDistance) items"
    using L l(5) by blast
  have ext2: "extends w w2" using n0(3) l(1) by (rule extends_trans)
  have main: "extends w w' \<and> 1 \<le> attempts \<and> attempts \<le> 50
    \<and> calls w' = calls w + 3 * attempts + (if valid then 0 else 3)
    \<and> fresh w \<le> sPos \<and> sPos < fresh w'
    \<and> (valid \<longrightarrow> list_all (\<lambda>e. \<not> distanceTo (cell w' sPos) (cell w' (scatterPos e))
                                     < minDistance) items)
    \<and> (\<not> valid \<longrightarrow> attempts = 50
           \<and> cell w' sPos = fst (getRandomSpherePoint 22 rnd (calls w + 150)))"
  proof (cases v)
    case True
    have "placeScatter items rnd w = (s1, v, a, w2)"
      unfolding placeScatter_def Let_def e0 prod.case e1 using True by simp
    then have eq: "sPos = s1" "valid = v" "attempts = a" "w' = w2"
      using res by simp_all
    have p1: "extends w w'" using ext2 eq by simp
    have p2: "1 \<le> attempts" using l(5) eq by simp
    have p3: "attempts \<le> 50" using l(2) eq by simp
    have p4: "calls w' = calls w + 3 * attempts + (if valid then 0 else 3)"
      using l(3) n0(2) eq True by simp
    have p5: "fresh w \<le> sPos" using lv n0(1) eq by simp
    have p6: "sPos < fresh w'" using lv eq by simp
    have p7: "list_all (\<lambda>e. \<not> distanceTo (cell w' sPos) (cell w' (scatterPos e))
                                     < minDistance) items"
      using lv True unfolding eq by blast
    have p8: "valid" using True eq by simp
    show ?thesis using p1 p2 p3 p4 p5 p6 p7 p8 by blast
  next
    case False
    obtain s2 w3 where e2: "sample (getRandomSpherePoint 22) rnd w2 = (s2, w3)"
      by (cases "sample (getRandomSpherePoint 22) rnd w2")
    have sp: "s2 = fresh w2" "fresh w3 = Suc (fresh w2)" "calls w3 = calls w2 + 3"
      "cell w3 s2 = fst (getRandomSpherePoint 22 rnd (calls w2))" "extends w2 w3"
      using sample_props [OF e2] sampler_calls(1) by simp_all
    have "placeScatter items rnd w = (s2, v, a, w3)"
      unfolding placeScatter_def Let_def e0 prod.case e1 using False e2 by simp
    then have eq: "sPos = s2" "valid = v" "attempts = a" "w' = w3"
      using res by simp_all
    have a50: "a = 50" using l(6) False by simp
    have "extends w w3" using ext2 sp(5) by (rule extends_trans)
    then have p1: "extends w w'" using eq by simp
    have p2: "1 \<le> attempts" using l(5) eq by simp
    have p3: "attempts \<le> 50" using l(2) eq by simp
    have p4: "calls w' = calls w + 3 * attempts + (if valid then 0 else 3)"
      using l(3) n0(2) sp(3) eq False by simp
    have p5: "fresh w \<le> sPos" using sp(1) l(4) n0(1) eq by simp
    have p6: "sPos < fresh w'" using sp(1,2) eq by simp
    have p7: "\<not> valid" using False eq by simp
    have p8: "attempts = 50" using a50 eq by simp
    have p9: "cell w' sPos = fst (getRandomSpherePoint 22 rnd (calls w + 150))"
      using sp(4) l(3) n0(2) a50 eq by simp
    show ?thesis using p1 p2 p3 p4 p5 p6 p7 p8 p9 by blast
  qed
  show "extends w w'" "1 \<le> attempts" "attempts \<le> 50"
    "calls w' = calls w + 3 * attempts + (if valid then 0 else 3)"
    "fresh w \<le> sPos" "sPos < fresh w'"
    "valid \<longrightarrow> list_all (\<lambda>e. \<not> distanceTo (cell w' sPos) (cell w' (scatterPos e))
                                     < minDistance) items"
    "\<not> valid \<longrightarrow> attempts = 50
           \<and> cell w' sPos = fst (getRandomSpherePoint 22 rnd (calls w + 150))"
    using main by blast+
qed


lemma giftBoxItem_props:
  assumes res: "giftBoxItem items rnd w = (item, (attempts, valid), w')"
  shows "extends w w'"
    and "\<forall>r \<in> set (refs item). fresh w \<le> r \<and> r < fresh w'"
    and "distinct (refs item)"
    and "1 \<le> attempts" and "attempts \<le> 50"
    and "calls w' = calls w + 8 + 3 * attempts + (if valid then 0 else 3)"
    and "valid \<longrightarrow> (\<forall>e \<in> set items. scatterPos e < fresh w \<longrightarrow>
           minDistance \<le> distanceTo (cell w' (scatterPos item)) (cell w' (scatterPos e)))"
    and "\<not> valid \<longrightarrow> attempts = 50
           \<and> (\<exists>k. cell w' (scatterPos item) = fst (getRandomSpherePoint 22 rnd k))"
proof -
  obtain tPos w1 where e1: "sample (getGiftBoxPoint 12 5.5 (- 1)) rnd w = (tPos, w1)"
    by (cases "sample (getGiftBoxPoint 12 5.5 (- 1)) rnd w")
  obtain sPos v a w2 where e2: "placeScatter items rnd w1 = (sPos, v, a, w2)"
    using prod_cases4 by blast
  obtain r1 w3 where e3: "random rnd w2 = (r1, w3)" by (cases "random rnd w2")
  obtain r2 w4 where e4: "random rnd w3 = (r2, w4)" by (cases "random rnd w3")
  obtain cur w5 where e5: "new_object (cell w4 sPos) w4 = (cur, w5)"
    by (cases "new_object (cell w4 sPos) w4")
  obtain sc w6 where
    e6: "new_object (Vec3 (0.6 + r1 * 0.4) (0.6 + r1 * 0.4) (0.6 + r1 * 0.4)) w5 = (sc, w6)"
    by (cases "new_object (Vec3 (0.6 + r1 * 0.4) (0.6 + r1 * 0.4) (0.6 + r1 * 0.4)) w5")
  obtain r3 w7 where e7: "random rnd w6 = (r3, w7)" by (cases "random rnd w6")
  obtain r4 w8 where e8: "random rnd w7 = (r4, w8)" by (cases "random rnd w7")
  obtain rot w9 where e9: "new_object (Vec3 (r3 * pi) (r4 * pi) 0) w8 = (rot, w9)"
    by (cases "new_object (Vec3 (r3 * pi) (r4 * pi) 0) w8")
  obtain r5 w10 where e10: "random rnd w9 = (r5, w10)" by (cases "random rnd w9")
  have "giftBoxItem items rnd w =
      (\<lparr>treePos = tPos, scatterPos = sPos, currentPos = cur, scale = sc, rotation = rot,
        rotationSpeed = (r5 - 0.5) * 0.02, color = fst (pickColor r2),
        ribbonColor = ribbonColorFor (fst (snd (pickColor r2)))\<rparr>, (a, v), w10)"
    unfolding giftBoxItem_def Let_def e1 e2 e3 e4 e5 e6 e7 e8 e9 e10 prod.case ..
  then have eq: "treePos item = tPos" "scatterPos item = sPos" "currentPos item = cur"
    "scale item = sc" "rotation item = rot" "attempts = a" "valid = v" "w' = w10"
    using res by auto
  have s1: "tPos = fresh w" "fresh w1 = Suc (fresh w)" "calls w1 = calls w + 3" "extends w w1"
    using sample_props [OF e1] sampler_calls(2) by simp_all
  note p = placeScatter_props [OF e2]
  have x3: "fresh w3 = fresh w2" "calls w3 = Suc (calls w2)" "extends w2 w3"
    using random_props [OF e3] by simp_all
  have x4: "fresh w4 = fresh w3" "calls w4 = Suc (calls w3)" "extends w3 w4"
    using random_props [OF e4] by simp_all
  have x5: "cur = fresh w4" "fresh w5 = Suc (fresh w4)" "calls w5 = calls w4" "extends w4 w5"
    using new_object_props [OF e5] by simp_all
  have x6: "sc = fresh w5" "fresh w6 = Suc (fresh w5)" "calls w6 = calls w5" "extends w5 w6"
    using new_object_props [OF e6] by simp_all
  have x7: "fresh w7 = fresh w6" "calls w7 = Suc (calls w6)" "extends w6 w7"
    using random_props [OF e7] by simp_all
  have x8: "fresh w8 = fresh w7" "calls w8 = Suc (calls w7)" "extends w7 w8"
    using random_props [OF e8] by simp_all
  have x9: "rot = fresh w8" "fresh w9 = Suc (fresh w8)" "calls w9 = calls w8" "extends w8 w9"
    using new_object_props [OF e9] by simp_all
  have x10: "fresh w10 = fresh w9" "calls w10 = Suc (calls w9)" "extends w9 w10"
    using random_props [OF e10] by simp_all
  have ext12: "extends w w2" using s1(4) p(1) by (rule extends_trans)
  have "extends w2 w4" using x3(3) x4(3) by (rule extends_trans)
  then have "extends w2 w5" using x5(4) by (rule extends_trans)
  then have "extends w2 w6" using x6(4) by (rule extends_trans)
  then have "extends w2 w7" using x7(3) by (rule extends_trans)
  then have "extends w2 w8" using x8(3) by (rule extends_trans)
  then have "extends w2 w9" using x9(4) by (rule extends_trans)
  then have ext2_10: "extends w2 w10" using x10(3) by (rule extends_trans)
  have f2: "fresh w \<le> fresh w1" "fresh w1 \<le> fresh w2"
    using s1(4) p(1) by (simp_all add: extends_fresh)
  have fr: "fresh w10 = fresh w2 + 3"
    using x3(1) x4(1) x5(2) x6(2) x7(1) x8(1) x9(2) x10(1) by simp
  have rs: "tPos = fresh w" "fresh w1 \<le> sPos" "sPos < fresh w2" "cur = fresh w2"
    "sc = fresh w2 + 1" "rot = fresh w2 + 2"
    using s1(1) p(5,6) x3(1) x4(1) x5(1,2) x6(1,2) x7(1) x8(1) x9(1) by simp_all
  have "extends w w10" using ext12 ext2_10 by (rule extends_trans)
  then show "extends w w'" using eq(8) by simp
  show "\<forall>r \<in> set (refs item). fresh w \<le> r \<and> r < fresh w'"
    using rs fr f2 s1(2) unfolding refs_def eq by simp
  show "distinct (refs item)"
    using rs s1(2) unfolding refs_def eq by simp
  show "1 \<le> attempts" using p(2) eq by simp
  show "attempts \<le> 50" using p(3) eq by simp
  show "calls w' = calls w + 8 + 3 * attempts + (if valid then 0 else 3)"
    using p(4) s1(3) x3(2) x4(2) x5(3) x6(3) x7(2) x8(2) x9(3) x10(2) unfolding eq by simp
  have keep: "cell w10 r = cell w2 r" if "r < fresh w2" for r
    using ext2_10 that by (rule extends_cell)
  show "valid \<longrightarrow> (\<forall>e \<in> set items. scatterPos e < fresh w \<longrightarrow>
           minDistance \<le> distanceTo (cell w' (scatterPos item)) (cell w' (scatterPos e)))"
  proof (intro impI ballI)
    fix e
    assume "valid" and e: "e \<in> set items" and lt: "scatterPos e < fresh w"
    then have "v" using eq by simp
    then have "list_all (\<lambda>e. \<not> distanceTo (cell w2 sPos) (cell w2 (scatterPos e))
                                     < minDistance) items"
      using p(7) by blast
    then have "\<not> distanceTo (cell w2 sPos) (cell w2 (scatterPos e)) < minDistance"
      using e by (simp add: list_all_iff)
    moreover have "cell w10 sPos = cell w2 sPos" using rs(3) by (rule keep)
    moreover have "cell w10 (scatterPos e) = cell w2 (scatterPos e)"
      using lt f2 by (intro keep) simp
    ultimately show "minDistance \<le> distanceTo (cell w' (scatterPos item)) (cell w' (scatterPos e))"
      unfolding eq by simp
  qed
  show "\<not> valid \<longrightarrow> attempts = 50
           \<and> (\<exists>k. cell w' (scatterPos item) = fst (getRandomSpherePoint 22 rnd k))"
  proof
    assume "\<not> valid"
    then have "\<not> v" using eq by simp
    then have a: "a = 50" and c: "cell w2 sPos = fst (getRandomSpherePoint 22 rnd (calls w1 + 150))"
      using p(8) by blast+
    have "cell w10 sPos = cell w2 sPos" using rs(3) by (rule keep)
    then show "attempts = 50
           \<and> (\<exists>k. cell w' (scatterPos item) = fst (getRandomSpherePoint 22 rnd k))"
      using a c unfolding eq by auto
  qed
qed


lemma placed_mono:
  assumes pl: "placed rnd w items trace i" and i: "i < length items"
    and len: "length trace = length items" and ext: "extends w w'"
    and old: "\<forall>d \<in> set items. scatterPos d < fresh w"
  shows "placed rnd w' (items @ ys) (trace @ ts) i"
proof -
  have c: "cell w' (scatterPos (items ! j)) = cell w (scatterPos (items ! j))"
    if "j < length items" for j
  proof -
    have "items ! j \<in> set items" using that by simp
    then have "scatterPos (items ! j) < fresh w" using old by blast
    then show ?thesis using ext by (simp add: extends_cell)
  qed
  have n1: "(items @ ys) ! j = items ! j" if "j < length items" for j
    using that by (simp add: nth_append)
  have n2: "(trace @ ts) ! i = trace ! i"
    using i len by (simp add: nth_append)
  have a: "1 \<le> fst (trace ! i)" "fst (trace ! i) \<le> 50"
    using pl by (simp_all add: placed_def Let_def)
  have b: "minDistance \<le> distanceTo (cell w (scatterPos (items ! i)))
                            (cell w (scatterPos (items ! j)))"
    if "snd (trace ! i)" "j < i" for j
    using pl that by (simp add: placed_def Let_def)
  have d: "fst (trace ! i) = 50
      \<and> (\<exists>k. cell w (scatterPos (items ! i)) = fst (getRandomSpherePoint 22 rnd k))"
    if "\<not> snd (trace ! i)"
    using pl that by (simp add: placed_def Let_def)
  have b': "minDistance \<le> distanceTo (cell w' (scatterPos ((items @ ys) ! i)))
                            (cell w' (scatterPos ((items @ ys) ! j)))"
    if "snd (trace ! i)" "j < i" for j
  proof -
    have "j < length items" using that(2) i by simp
    then show ?thesis using b [OF that] n1 [OF i] n1 [of j] c [OF i] c [of j] by simp
  qed
  have d': "fst (trace ! i) = 50
      \<and> (\<exists>k. cell w' (scatterPos ((items @ ys) ! i)) = fst (getRandomSpherePoint 22 rnd k))"
    if "\<not> snd (trace ! i)"
    using d [OF that] n1 [OF i] c [OF i] by simp
  show ?thesis
    unfolding placed_def Let_def n2 using a b' d' by blast
qed

lemma sum_list_bounded:
  fixes f :: "'a \<Rightarrow> nat"
  shows "\<forall>x \<in> set xs. f x \<le> c \<Longrightarrow> sum_list (map f xs) \<le> length xs * c"
  by (induction xs) auto

lemma giftBoxData_props:
  assumes "giftBoxData count rnd w = (items, trace, w')"
  shows "extends w w' \<and> length items = count \<and> length trace = count
     \<and> (\<forall>d \<in> set items. \<forall>r \<in> set (refs d). fresh w \<le> r \<and> r < fresh w')
     \<and> distinct (concat (map refs items))
     \<and> (\<forall>i<count. placed rnd w' items trace i)
     \<and> (\<forall>t \<in> set trace. fst t \<le> 50)
     \<and> calls w' = calls w + 8 * count + 3 * sum_list (map fst trace)
                    + 3 * length (filter (\<lambda>t. \<not> snd t) trace)"
  using assms
proof (induction count arbitrary: items trace w')
  case 0
  then show ?case by (simp add: extends_refl)
next
  case (Suc n)
  obtain items0 trace0 w1 where e0: "giftBoxData n rnd w = (items0, trace0, w1)"
    using prod_cases3 by blast
  obtain item t w2 where e1': "giftBoxItem items0 rnd w1 = (item, t, w2)"
    using prod_cases3 by blast
  obtain a v where t: "t = (a, v)" by (cases t)
  have e1: "giftBoxItem items0 rnd w1 = (item, (a, v), w2)"
    using e1' t by simp
  have "giftBoxData (Suc n) rnd w = (items0 @ [item], trace0 @ [(a, v)], w2)"
    unfolding giftBoxData.simps Let_def e0 e1 prod.case ..
  then have eq: "items = items0 @ [item]" "trace = trace0 @ [(a, v)]" "w' = w2"
    using Suc.prems by simp_all
  have ih: "extends w w1" "length items0 = n" "length trace0 = n"
    "\<forall>d \<in> set items0. \<forall>r \<in> set (refs d). fresh w \<le> r \<and> r < fresh w1"
    "distinct (concat (map refs items0))"
    "\<forall>i<n. placed rnd w1 items0 trace0 i"
    "\<forall>t \<in> set trace0. fst t \<le> 50"
    "calls w1 = calls w + 8 * n + 3 * sum_list (map fst trace0)
                    + 3 * length (filter (\<lambda>t. \<not> snd t) trace0)"
    using Suc.IH [OF e0] by blast+
  note ip = giftBoxItem_props [OF e1]
  have p1: "extends w w2" using ih(1) ip(1) by (rule extends_trans)
  have p2: "length (items0 @ [item]) = Suc n" "length (trace0 @ [(a, v)]) = Suc n"
    using ih(2,3) by simp_all
  have fr: "fresh w \<le> fresh w1" "fresh w1 \<le> fresh w2"
    using ih(1) ip(1) by (simp_all add: extends_fresh)
  have old: "r < fresh w1" if "d \<in> set items0" "r \<in> set (refs d)" for d r
    using ih(4) that by blast
  have oldS: "\<forall>d \<in> set items0. scatterPos d < fresh w1"
    using old refs_members(2) by blast
  have p3: "\<forall>d \<in> set (items0 @ [item]). \<forall>r \<in> set (refs d). fresh w \<le> r \<and> r < fresh w2"
  proof (intro ballI)
    fix d r
    assume d: "d \<in> set (items0 @ [item])" and r: "r \<in> set (refs d)"
    show "fresh w \<le> r \<and> r < fresh w2"
    proof (cases "d \<in> set items0")
      case True
      then have "fresh w \<le> r \<and> r < fresh w1" using ih(4) r by blast
      then show ?thesis using fr(2) by linarith
    next
      case False
      then have "d = item" using d by simp
      then have "fresh w1 \<le> r \<and> r < fresh w2" using ip(2) r by blast
      then show ?thesis using fr(1) by linarith
    qed
  qed
  have disj: "set (concat (map refs items0)) \<inter> set (refs item) = {}"
  proof -
    have "r < fresh w1" if "r \<in> set (concat (map refs items0))" for r
      using that old by auto
    moreover have "fresh w1 \<le> r" if "r \<in> set (refs item)" for r
      using that ip(2) by blast
    ultimately show ?thesis by fastforce
  qed
  have p4: "distinct (concat (map refs (items0 @ [item])))"
    using ih(5) ip(3) disj by simp
  have p5: "\<forall>i<Suc n. placed rnd w2 (items0 @ [item]) (trace0 @ [(a, v)]) i"
  proof (intro allI impI)
    fix i
    assume "i < Suc n"
    then consider "i < n" | "i = n" by linarith
    then show "placed rnd w2 (items0 @ [item]) (trace0 @ [(a, v)]) i"
    proof cases
      case 1
      then have "placed rnd w1 items0 trace0 i" using ih(6) by blast
      moreover have "i < length items0" using 1 ih(2) by simp
      moreover have "length trace0 = length items0" using ih(2,3) by simp
      ultimately show ?thesis using ip(1) oldS by (rule placed_mono)
    next
      case 2
      have it: "(items0 @ [item]) ! i = item" "(trace0 @ [(a, v)]) ! i = (a, v)"
        using 2 ih(2,3) nth_append_length [of items0 item]
          nth_append_length [of trace0 "(a, v)"]
        by simp_all
      have far: "minDistance \<le> distanceTo (cell w2 (scatterPos item))
                             (cell w2 (scatterPos ((items0 @ [item]) ! j)))"
        if "v" "j < i" for j
      proof -
        have j: "j < length items0" using that(2) 2 ih(2) by simp
        then have "items0 ! j \<in> set items0" by simp
        moreover from this have "scatterPos (items0 ! j) < fresh w1" using oldS by blast
        ultimately have "minDistance \<le> distanceTo (cell w2 (scatterPos item))
                             (cell w2 (scatterPos (items0 ! j)))"
          using ip(7) that(1) by blast
        then show ?thesis using j by (simp add: nth_append)
      qed
      show ?thesis
        unfolding placed_def Let_def it fst_conv snd_conv
        using ip(4,5,8) far by blast
    qed
  qed
  have p6: "\<forall>t \<in> set (trace0 @ [(a, v)]). fst t \<le> 50"
    using ih(7) ip(5) by simp
  have p7: "calls w2 = calls w + 8 * Suc n + 3 * sum_list (map fst (trace0 @ [(a, v)]))
                    + 3 * length (filter (\<lambda>t. \<not> snd t) (trace0 @ [(a, v)]))"
    using ih(8) ip(6) by simp
  show ?case
    unfolding eq using p1 p2 p3 p4 p5 p6 p7 by blast
qed


lemma separated_extends:
  assumes ext: "extends w w'" and old: "\<forall>e \<in> set items. scatterPos e < fresh w"
  shows "separated w' items q = separated w items q"
proof -
  have "cell w' (scatterPos e) = cell w (scatterPos e)" if "e \<in> set items" for e
  proof -
    have "scatterPos e < fresh w" using old that by blast
    then show ?thesis using ext by (simp add: extends_cell)
  qed
  then show ?thesis by (simp add: separated_def list_all_iff)
qed

lemma candidate_shift: "candidate rnd (k + 3) j = candidate rnd k (Suc j)"
  by (simp add: candidate_def add.assoc)

lemma scatterLoop_stop:
  assumes "validPosition \<or> \<not> attempts < 50"
  shows "scatterLoop items rnd sPos validPosition attempts w = (sPos, validPosition, attempts, w)"
  using assms by (subst scatterLoop.simps) auto

lemma scatterLoop_candidates:
  assumes "attempts \<le> 50" and "\<forall>e \<in> set items. scatterPos e < fresh w"
  shows "case scatterLoop items rnd sPos validPosition attempts w of
           (s', v', a', w') \<Rightarrow>
             (\<forall>j. j + 1 < a' - attempts \<longrightarrow> \<not> separated w items (candidate rnd (calls w) j))
             \<and> (attempts < a' \<longrightarrow>
                   cell w' s' = candidate rnd (calls w) (a' - attempts - 1)
                   \<and> (v' \<longleftrightarrow> separated w items (candidate rnd (calls w) (a' - attempts - 1))))"
  using assms
proof (induction items rnd sPos validPosition attempts w rule: scatterLoop.induct)
  case (1 items rnd sPos validPosition attempts w)
  show ?case
  proof (cases "\<not> validPosition \<and> attempts < 50")
    case False
    then have "validPosition \<or> \<not> attempts < 50" by blast
    then have eq: "scatterLoop items rnd sPos validPosition attempts w
        = (sPos, validPosition, attempts, w)"
      by (rule scatterLoop_stop)
    show ?thesis unfolding eq prod.case by simp
  next
    case True
    obtain s1 w1 where smp: "sample (getRandomSpherePoint 18) rnd w = (s1, w1)"
      by (cases "sample (getRandomSpherePoint 18) rnd w")
    define v1 where "v1 = list_all (\<lambda>e. \<not> distanceTo (cell w1 s1) (cell w1 (scatterPos e))
                                         < minDistance) items"
    have sp: "s1 = fresh w" "fresh w1 = Suc (fresh w)" "calls w1 = calls w + 3"
      "cell w1 s1 = fst (getRandomSpherePoint 18 rnd (calls w))" "extends w w1"
      using sample_props [OF smp] sampler_calls(1) by simp_all
    have c0: "cell w1 s1 = candidate rnd (calls w) 0"
      using sp(4) by (simp add: candidate_def)
    have stable: "separated w1 items q = separated w items q" for q
      using sp(5) "1.prems"(2) by (rule separated_extends)
    have v1: "v1 \<longleftrightarrow> separated w items (candidate rnd (calls w) 0)"
      unfolding v1_def c0 using stable [of "candidate rnd (calls w) 0"]
      by (simp add: separated_def list_all_iff not_less)
    have unfold: "scatterLoop items rnd sPos validPosition attempts w
        = scatterLoop items rnd s1 v1 (attempts + 1) w1"
      using True smp by (subst scatterLoop.simps) (simp add: v1_def)
    obtain s' v' a' w' where res: "scatterLoop items rnd s1 v1 (attempts + 1) w1 = (s', v', a', w')"
      using prod_cases4 by blast
    have le: "attempts + 1 \<le> 50" using True by simp
    have old1: "\<forall>e \<in> set items. scatterPos e < fresh w1"
      using "1.prems"(2) sp(2) by auto
    have IH: "(\<forall>j. j + 1 < a' - (attempts + 1) \<longrightarrow>
                  \<not> separated w1 items (candidate rnd (calls w1) j))
             \<and> (attempts + 1 < a' \<longrightarrow>
                   cell w' s' = candidate rnd (calls w1) (a' - (attempts + 1) - 1)
                   \<and> (v' \<longleftrightarrow> separated w1 items
                               (candidate rnd (calls w1) (a' - (attempts + 1) - 1))))"
      using "1.IH" [OF True smp [symmetric] refl v1_def le old1] unfolding res prod.case .
    have ih1: "\<not> separated w items (candidate rnd (calls w) (Suc j))"
      if "j + 1 < a' - (attempts + 1)" for j
    proof -
      have "\<not> separated w1 items (candidate rnd (calls w1) j)" using IH that by blast
      then show ?thesis unfolding stable sp(3) candidate_shift .
    qed
    have ih2: "cell w' s' = candidate rnd (calls w) (Suc (a' - (attempts + 1) - 1))
        \<and> (v' \<longleftrightarrow> separated w items (candidate rnd (calls w) (Suc (a' - (attempts + 1) - 1))))"
      if "attempts + 1 < a'"
    proof -
      have "cell w' s' = candidate rnd (calls w1) (a' - (attempts + 1) - 1)
                   \<and> (v' \<longleftrightarrow> separated w1 items
                               (candidate rnd (calls w1) (a' - (attempts + 1) - 1)))"
        using IH that by blast
      then show ?thesis unfolding stable sp(3) candidate_shift .
    qed
    have z: "attempts + 1 \<le> 50" by (rule le)
    have pr: "attempts + 1 \<le> a'"
      "a' = attempts + 1 \<longrightarrow> s' = s1 \<and> v' = v1 \<and> w' = w1"
    proof -
      have P: "extends w1 w' \<and> attempts + 1 \<le> a' \<and> a' \<le> 50
             \<and> calls w' = calls w1 + 3 * (a' - (attempts + 1))
             \<and> fresh w' = fresh w1 + (a' - (attempts + 1))
             \<and> (a' = attempts + 1 \<longrightarrow> s' = s1 \<and> v' = v1 \<and> w' = w1)
             \<and> (attempts + 1 < a' \<longrightarrow> fresh w1 \<le> s' \<and> s' < fresh w'
                   \<and> v' = list_all (\<lambda>e. \<not> distanceTo (cell w' s') (cell w' (scatterPos e))
                                         < minDistance) items)
             \<and> (\<not> v' \<longrightarrow> a' = 50)
             \<and> (\<not> v1 \<and> attempts + 1 < 50 \<longrightarrow> attempts + 1 < a')"
        using scatterLoop_props [OF z, where items = items and rnd = rnd and sPos = s1
          and validPosition = v1 and w = w1]
        unfolding res prod.case .
      show "attempts + 1 \<le> a'" using P by blast
      show "a' = attempts + 1 \<longrightarrow> s' = s1 \<and> v' = v1 \<and> w' = w1" using P by blast
    qed
    have cont: "\<not> v1" if "attempts + 1 < a'"
    proof
      assume "v1"
      then have "scatterLoop items rnd s1 v1 (attempts + 1) w1 = (s1, v1, attempts + 1, w1)"
        by (intro scatterLoop_stop) simp
      then have "a' = attempts + 1" using res by simp
      then show False using that by simp
    qed
    have A: "\<not> separated w items (candidate rnd (calls w) j)" if j: "j + 1 < a' - attempts" for j
    proof (cases j)
      case 0
      then have "attempts + 1 < a'" using j by simp
      then have "\<not> v1" by (rule cont)
      then show ?thesis using v1 0 by simp
    next
      case (Suc j')
      then have "j' + 1 < a' - (attempts + 1)" using j by simp
      then show ?thesis using ih1 Suc by simp
    qed
    have B: "cell w' s' = candidate rnd (calls w) (a' - attempts - 1)
        \<and> (v' \<longleftrightarrow> separated w items (candidate rnd (calls w) (a' - attempts - 1)))"
    proof (cases "a' = attempts + 1")
      case True
      then have e: "s' = s1" "v' = v1" "w' = w1" using pr(2) by blast+
      have i0: "a' - attempts - 1 = 0" using True by simp
      show ?thesis unfolding i0 e using c0 v1 by simp
    next
      case False
      then have lt: "attempts + 1 < a'" using pr(1) by linarith
      then have i1: "Suc (a' - (attempts + 1) - 1) = a' - attempts - 1" by simp
      show ?thesis using ih2 [OF lt] unfolding i1 .
    qed
    show ?thesis
      unfolding unfold res prod.case using A B by blast
  qed
qed


lemma placeScatter_candidates:
  assumes res: "placeScatter items rnd w = (sPos, valid, attempts, w')"
    and old: "\<forall>e \<in> set items. scatterPos e < fresh w"
  shows "\<forall>j. j + 1 < attempts \<longrightarrow> \<not> separated w items (candidate rnd (calls w) j)"
    and "valid \<longleftrightarrow> separated w items (candidate rnd (calls w) (attempts - 1))"
    and "valid \<longrightarrow> cell w' sPos = candidate rnd (calls w) (attempts - 1)"
proof -
  obtain s0 w1 where e0: "new_object (Vec3 0 0 0) w = (s0, w1)"
    by (cases "new_object (Vec3 0 0 0) w")
  obtain s1 v a w2 where e1: "scatterLoop items rnd s0 False 0 w1 = (s1, v, a, w2)"
    using prod_cases4 by blast
  have n0: "fresh w1 = Suc (fresh w)" "calls w1 = calls w" "extends w w1"
    using new_object_props [OF e0] by simp_all
  have old1: "\<forall>e \<in> set items. scatterPos e < fresh w1"
    using old n0(1) by auto
  have stable: "separated w1 items q = separated w items q" for q
    using n0(3) old by (rule separated_extends)
  have z: "(0::nat) \<le> 50" by simp
  have C: "(\<forall>j. j + 1 < a - 0 \<longrightarrow> \<not> separated w1 items (candidate rnd (calls w1) j))
             \<and> (0 < a \<longrightarrow>
                   cell w2 s1 = candidate rnd (calls w1) (a - 0 - 1)
                   \<and> (v \<longleftrightarrow> separated w1 items (candidate rnd (calls w1) (a - 0 - 1))))"
    using scatterLoop_candidates [OF z old1, where rnd = rnd and sPos = s0
        and validPosition = False]
    unfolding e1 prod.case .
  have L: "extends w1 w2 \<and> 0 \<le> a \<and> a \<le> 50
             \<and> calls w2 = calls w1 + 3 * (a - 0)
             \<and> fresh w2 = fresh w1 + (a - 0)
             \<and> (a = 0 \<longrightarrow> s1 = s0 \<and> v = False \<and> w2 = w1)
             \<and> (0 < a \<longrightarrow> fresh w1 \<le> s1 \<and> s1 < fresh w2
                   \<and> v = list_all (\<lambda>e. \<not> distanceTo (cell w2 s1) (cell w2 (scatterPos e))
                                         < minDistance) items)
             \<and> (\<not> v \<longrightarrow> a = 50)
             \<and> (\<not> False \<and> (0::nat) < 50 \<longrightarrow> 0 < a)"
    using scatterLoop_props [OF z, where items = items and rnd = rnd and sPos = s0
          and validPosition = False and w = w1]
      unfolding e1 prod.case .
  have pos0: "\<not> False \<and> (0::nat) < 50 \<longrightarrow> 0 < a" using L by blast
  have pos: "0 < a" using pos0 by simp
  have c1: "\<not> separated w items (candidate rnd (calls w) j)" if "j + 1 < a" for j
  proof -
    have "j + 1 < a - 0" using that by simp
    then have "\<not> separated w1 items (candidate rnd (calls w1) j)" using C by blast
    then show ?thesis unfolding stable n0(2) .
  qed
  have c2: "cell w2 s1 = candidate rnd (calls w) (a - 1)
      \<and> (v \<longleftrightarrow> separated w items (candidate rnd (calls w) (a - 1)))"
  proof -
    have "cell w2 s1 = candidate rnd (calls w1) (a - 0 - 1)
                   \<and> (v \<longleftrightarrow> separated w1 items (candidate rnd (calls w1) (a - 0 - 1)))"
      using C pos by blast
    then show ?thesis unfolding stable n0(2) by simp
  qed
  have eqs: "valid = v \<and> attempts = a \<and> (v \<longrightarrow> sPos = s1 \<and> w' = w2)"
  proof (cases v)
    case True
    have "placeScatter items rnd w = (s1, v, a, w2)"
      unfolding placeScatter_def Let_def e0 prod.case e1 using True by simp
    then show ?thesis using res by simp
  next
    case False
    obtain s2 w3 where e2: "sample (getRandomSpherePoint 22) rnd w2 = (s2, w3)"
      by (cases "sample (getRandomSpherePoint 22) rnd w2")
    have "placeScatter items rnd w = (s2, v, a, w3)"
      unfolding placeScatter_def Let_def e0 prod.case e1 using False e2 by simp
    then show ?thesis using res False by simp
  qed
  have eq: "valid = v" "attempts = a" using eqs by blast+
  show "\<forall>j. j + 1 < attempts \<longrightarrow> \<not> separated w items (candidate rnd (calls w) j)"
    unfolding eq using c1 by blast
  show "valid \<longleftrightarrow> separated w items (candidate rnd (calls w) (attempts - 1))"
    unfolding eq using c2 by blast
  show "valid \<longrightarrow> cell w' sPos = candidate rnd (calls w) (attempts - 1)"
  proof
    assume "valid"
    then have "v" using eq by simp
    then have "sPos = s1" "w' = w2" using eqs by blast+
    then show "cell w' sPos = candidate rnd (calls w) (attempts - 1)"
      unfolding eq using c2 by simp
  qed
qed

lemma giftBoxItem_placeScatter:
  assumes res: "giftBoxItem items rnd w = (item, (attempts, valid), w')"
  shows "\<exists>w1 w2. placeScatter items rnd w1 = (scatterPos item, valid, attempts, w2)
           \<and> extends w w1 \<and> calls w1 = calls w + 3 \<and> extends w2 w'"
proof -
  obtain tPos w1 where e1: "sample (getGiftBoxPoint 12 5.5 (- 1)) rnd w = (tPos, w1)"
    by (cases "sample (getGiftBoxPoint 12 5.5 (- 1)) rnd w")
  obtain sPos v a w2 where e2: "placeScatter items rnd w1 = (sPos, v, a, w2)"
    using prod_cases4 by blast
  obtain r1 w3 where e3: "random rnd w2 = (r1, w3)" by (cases "random rnd w2")
  obtain r2 w4 where e4: "random rnd w3 = (r2, w4)" by (cases "random rnd w3")
  obtain cur w5 where e5: "new_object (cell w4 sPos) w4 = (cur, w5)"
    by (cases "new_object (cell w4 sPos) w4")
  obtain sc w6 where
    e6: "new_object (Vec3 (0.6 + r1 * 0.4) (0.6 + r1 * 0.4) (0.6 + r1 * 0.4)) w5 = (sc, w6)"
    by (cases "new_object (Vec3 (0.6 + r1 * 0.4) (0.6 + r1 * 0.4) (0.6 + r1 * 0.4)) w5")
  obtain r3 w7 where e7: "random rnd w6 = (r3, w7)" by (cases "random rnd w6")
  obtain r4 w8 where e8: "random rnd w7 = (r4, w8)" by (cases "random rnd w7")
  obtain rot w9 where e9: "new_object (Vec3 (r3 * pi) (r4 * pi) 0) w8 = (rot, w9)"
    by (cases "new_object (Vec3 (r3 * pi) (r4 * pi) 0) w8")
  obtain r5 w10 where e10: "random rnd w9 = (r5, w10)" by (cases "random rnd w9")
  have "giftBoxItem items rnd w =
      (\<lparr>treePos = tPos, scatterPos = sPos, currentPos = cur, scale = sc, rotation = rot,
        rotationSpeed = (r5 - 0.5) * 0.02, color = fst (pickColor r2),
        ribbonColor = ribbonColorFor (fst (snd (pickColor r2)))\<rparr>, (a, v), w10)"
    unfolding giftBoxItem_def Let_def e1 e2 e3 e4 e5 e6 e7 e8 e9 e10 prod.case ..
  then have eq: "scatterPos item = sPos" "attempts = a" "valid = v" "w' = w10"
    using res by auto
  have s1: "calls w1 = calls w + 3" "extends w w1"
    using sample_props [OF e1] sampler_calls(2) by simp_all
  have "extends w2 w3" using random_props [OF e3] by simp
  moreover have "extends w3 w4" using random_props [OF e4] by simp
  ultimately have "extends w2 w4" by (rule extends_trans)
  moreover have "extends w4 w5" using new_object_props [OF e5] by simp
  ultimately have "extends w2 w5" by (rule extends_trans)
  moreover have "extends w5 w6" using new_object_props [OF e6] by simp
  ultimately have "extends w2 w6" by (rule extends_trans)
  moreover have "extends w6 w7" using random_props [OF e7] by simp
  ultimately have "extends w2 w7" by (rule extends_trans)
  moreover have "extends w7 w8" using random_props [OF e8] by simp
  ultimately have "extends w2 w8" by (rule extends_trans)
  moreover have "extends w8 w9" using new_object_props [OF e9] by simp
  ultimately have "extends w2 w9" by (rule extends_trans)
  moreover have "extends w9 w10" using random_props [OF e10] by simp
  ultimately have x: "extends w2 w10" by (rule extends_trans)
  have "placeScatter items rnd w1 = (scatterPos item, valid, attempts, w2)"
    unfolding eq by (rule e2)
  moreover have "extends w2 w'" unfolding eq by (rule x)
  ultimately show ?thesis using s1 by blast
qed

lemma giftBoxItem_candidates:
  assumes res: "giftBoxItem items rnd w = (item, (attempts, valid), w')"
    and old: "\<forall>e \<in> set items. scatterPos e < fresh w"
  shows "\<forall>j. j + 1 < attempts \<longrightarrow> \<not> separated w' items (candidate rnd (calls w + 3) j)"
    and "valid \<longleftrightarrow> separated w' items (candidate rnd (calls w + 3) (attempts - 1))"
    and "valid \<longrightarrow> cell w' (scatterPos item) = candidate rnd (calls w + 3) (attempts - 1)"
    and "\<not> valid \<longrightarrow>
           cell w' (scatterPos item) = fst (getRandomSpherePoint 22 rnd (calls w + 3 + 150))"
proof -
  obtain w1 w2 where ps: "placeScatter items rnd w1 = (scatterPos item, valid, attempts, w2)"
    and x: "extends w w1" "calls w1 = calls w + 3" "extends w2 w'"
    using giftBoxItem_placeScatter [OF res] by blast
  have f1: "fresh w \<le> fresh w1" using x(1) by (rule extends_fresh)
  have old1: "\<forall>e \<in> set items. scatterPos e < fresh w1"
    using old f1 by auto
  note p = placeScatter_props [OF ps]
  note c = placeScatter_candidates [OF ps old1]
  have "extends w1 w'" using p(1) x(3) by (rule extends_trans)
  then have stable: "separated w' items q = separated w1 items q" for q
    using old1 by (rule separated_extends)
  have keep: "cell w' (scatterPos item) = cell w2 (scatterPos item)"
    using x(3) p(6) by (rule extends_cell)
  show "\<forall>j. j + 1 < attempts \<longrightarrow> \<not> separated w' items (candidate rnd (calls w + 3) j)"
    using c(1) unfolding stable x(2) .
  show "valid \<longleftrightarrow> separated w' items (candidate rnd (calls w + 3) (attempts - 1))"
    using c(2) unfolding stable x(2) .
  show "valid \<longrightarrow> cell w' (scatterPos item) = candidate rnd (calls w + 3) (attempts - 1)"
    using c(3) unfolding keep x(2) .
  show "\<not> valid \<longrightarrow>
           cell w' (scatterPos item) = fst (getRandomSpherePoint 22 rnd (calls w + 3 + 150))"
    using p(8) unfolding keep x(2) by blast
qed


lemma tested_mono:
  assumes te: "tested rnd c0 w items trace i" and i: "i < length items"
    and len: "length trace = length items" and ext: "extends w w'"
    and old: "\<forall>d \<in> set items. scatterPos d < fresh w"
  shows "tested rnd c0 w' (items @ ys) (trace @ ts) i"
proof -
  have n1: "(items @ ys) ! i = items ! i" using i by (simp add: nth_append)
  have n2: "(trace @ ts) ! i = trace ! i" using i len by (simp add: nth_append)
  have t1: "take i (items @ ys) = take i items" using i by simp
  have t2: "take i (trace @ ts) = take i trace" using i len by simp
  have "items ! i \<in> set items" using i by simp
  then have "scatterPos (items ! i) < fresh w" using old by blast
  then have c: "cell w' (scatterPos (items ! i)) = cell w (scatterPos (items ! i))"
    using ext by (simp add: extends_cell)
  have "\<forall>e \<in> set (take i items). scatterPos e < fresh w"
    using old in_set_takeD by fast
  then have s: "separated w' (take i items) q = separated w (take i items) q" for q
    using ext by (simp add: separated_extends)
  show ?thesis
    using te unfolding tested_def Let_def n1 n2 t1 t2 c s .
qed

lemma giftBoxData_tested:
  assumes "giftBoxData count rnd w = (items, trace, w')"
  shows "calls w' = calls w + randomCalls trace
     \<and> (\<forall>i<count. tested rnd (calls w) w' items trace i)"
  using assms
proof (induction count arbitrary: items trace w')
  case 0
  then show ?case by (simp add: randomCalls_def)
next
  case (Suc n)
  obtain items0 trace0 w1 where e0: "giftBoxData n rnd w = (items0, trace0, w1)"
    using prod_cases3 by blast
  obtain item t w2 where e1': "giftBoxItem items0 rnd w1 = (item, t, w2)"
    using prod_cases3 by blast
  obtain a v where t: "t = (a, v)" by (cases t)
  have e1: "giftBoxItem items0 rnd w1 = (item, (a, v), w2)"
    using e1' t by simp
  have "giftBoxData (Suc n) rnd w = (items0 @ [item], trace0 @ [(a, v)], w2)"
    unfolding giftBoxData.simps Let_def e0 e1 prod.case ..
  then have eq: "items = items0 @ [item]" "trace = trace0 @ [(a, v)]" "w' = w2"
    using Suc.prems by simp_all
  have ih: "calls w1 = calls w + randomCalls trace0"
    "\<forall>i<n. tested rnd (calls w) w1 items0 trace0 i"
    using Suc.IH [OF e0] by blast+
  have gp: "length items0 = n" "length trace0 = n"
    "\<forall>d \<in> set items0. \<forall>r \<in> set (refs d). fresh w \<le> r \<and> r < fresh w1"
    using giftBoxData_props [OF e0] by blast+
  have oldS: "\<forall>d \<in> set items0. scatterPos d < fresh w1"
    using gp(3) refs_members(2) by blast
  note ip = giftBoxItem_props [OF e1]
  note ic = giftBoxItem_candidates [OF e1 oldS]
  have p1: "calls w2 = calls w + randomCalls (trace0 @ [(a, v)])"
    using ih(1) ip(6) by (simp add: randomCalls_def)
  have p2: "\<forall>i<Suc n. tested rnd (calls w) w2 (items0 @ [item]) (trace0 @ [(a, v)]) i"
  proof (intro allI impI)
    fix i
    assume "i < Suc n"
    then consider "i < n" | "i = n" by linarith
    then show "tested rnd (calls w) w2 (items0 @ [item]) (trace0 @ [(a, v)]) i"
    proof cases
      case 1
      then have "tested rnd (calls w) w1 items0 trace0 i" using ih(2) by blast
      moreover have "i < length items0" using 1 gp(1) by simp
      moreover have "length trace0 = length items0" using gp(1,2) by simp
      ultimately show ?thesis using ip(1) oldS by (rule tested_mono)
    next
      case 2
      have it: "(items0 @ [item]) ! i = item" "(trace0 @ [(a, v)]) ! i = (a, v)"
        using 2 gp(1,2) nth_append_length [of items0 item]
          nth_append_length [of trace0 "(a, v)"]
        by simp_all
      have tk: "take i (items0 @ [item]) = items0" "take i (trace0 @ [(a, v)]) = trace0"
        using 2 gp(1,2) by simp_all
      have k: "calls w + randomCalls trace0 + 3 = calls w1 + 3"
        using ih(1) by simp
      have q1: "\<forall>j<a - 1. \<not> separated w2 items0 (candidate rnd (calls w1 + 3) j)"
      proof (intro allI impI)
        fix j
        assume "j < a - 1"
        then have "j + 1 < a" by simp
        then show "\<not> separated w2 items0 (candidate rnd (calls w1 + 3) j)"
          using ic(1) by blast
      qed
      have q4: "\<not> v \<longrightarrow>
          cell w2 (scatterPos item) = fst (getRandomSpherePoint 22 rnd (calls w1 + 3 + 3 * a))"
      proof
        assume nv: "\<not> v"
        then have "a = 50" using ip(8) by blast
        then have "calls w1 + 3 + 3 * a = calls w1 + 3 + 150" by simp
        then show "cell w2 (scatterPos item)
            = fst (getRandomSpherePoint 22 rnd (calls w1 + 3 + 3 * a))"
          using ic(4) nv by simp
      qed
      show ?thesis
        unfolding tested_def Let_def it tk k fst_conv snd_conv
        using q1 ic(2,3) q4 by blast
    qed
  qed
  show ?case
    unfolding eq using p1 p2 by blast
qed


text \<open>
  C5.  Rejection-sampled placement of the gift boxes (\<open>minDistance = 2.0\<close>, at most 50
  attempts, candidates from \<open>getRandomSpherePoint(18)\<close>).  The construction is a total
  function: it returns for every count, random source and store.  For every box,
  with \<open>attempts\<close> and \<open>validPosition\<close> as the rejection loop left them (see
  \<open>placed\<close> and \<open>tested\<close>): between 1 and 50 candidates were drawn; every
  candidate but the last was closer than \<open>minDistance\<close> to the scatter position of
  some earlier box of the batch; the last candidate was accepted exactly if it is at
  least \<open>minDistance\<close> from the scatter position of every earlier box, and then it is
  the scatter position of the box; if it was not accepted, all 50 candidates failed the
  distance test and the scatter position is the point of \<open>getRandomSpherePoint(22)\<close>
  drawn next, taken without a check.  Over a batch of \<open>count\<close> boxes at most
  \<open>count * 50\<close> candidates and at most \<open>count\<close> fallback points are drawn, and the
  construction makes exactly \<open>8 * count + 3 * candidates + 3 * fallbacks\<close> calls of
  \<open>Math.random()\<close>, at most \<open>161 * count\<close>.
\<close>

theorem giftBoxData_placement:
  "(let (items, trace, w) = giftBoxData count rnd w0
    in length items = count \<and> length trace = count
     \<and> (\<forall>i<count. placed rnd w items trace i)
     \<and> (\<forall>i<count. tested rnd (calls w0) w items trace i)
     \<and> sum_list (map fst trace) \<le> count * 50
     \<and> length (filter (\<lambda>t. \<not> snd t) trace) \<le> count
     \<and> calls w = calls w0 + 8 * count + 3 * sum_list (map fst trace)
                   + 3 * length (filter (\<lambda>t. \<not> snd t) trace)
     \<and> calls w = calls w0 + randomCalls trace
     \<and> calls w \<le> calls w0 + 161 * count)"
proof -
  obtain items trace w where e: "giftBoxData count rnd w0 = (items, trace, w)"
    using prod_cases3 by blast
  have p: "length items = count" "length trace = count"
    "\<forall>i<count. placed rnd w items trace i"
    "\<forall>t \<in> set trace. fst t \<le> 50"
    "calls w = calls w0 + 8 * count + 3 * sum_list (map fst trace)
                    + 3 * length (filter (\<lambda>t. \<not> snd t) trace)"
    using giftBoxData_props [OF e] by blast+
  have q: "calls w = calls w0 + randomCalls trace"
    "\<forall>i<count. tested rnd (calls w0) w items trace i"
    using giftBoxData_tested [OF e] by blast+
  have s: "sum_list (map fst trace) \<le> count * 50"
    using sum_list_bounded [OF p(4)] p(2) by simp
  have f: "length (filter (\<lambda>t. \<not> snd t) trace) \<le> count"
    using length_filter_le [of "\<lambda>t. \<not> snd t" trace] p(2) by simp
  have c: "calls w \<le> calls w0 + 161 * count"
    using p(5) s f by linarith
  show ?thesis
    unfolding e Let_def prod.case using p(1,2,3,5) q s f c by blast
qed

lemma scatterLoop_example:
  "scatterLoop [] (\<lambda>_. 0) 4 False 0
       \<lparr>cell = c, fresh = 5, calls = 3\<rparr>
    = (5, True, 1, \<lparr>cell = c(5 := Vec3 0 0 0), fresh = 6, calls = 6\<rparr>)"
  apply (subst scatterLoop.simps)
  apply (simp add: sample_def new_object_def getRandomSpherePoint_def Let_def)
  apply (subst scatterLoop.simps)
  apply simp
  done

lemma giftBoxItem_example:
  "giftBoxItem [] (\<lambda>_. 0) \<lparr>cell = (\<lambda>_. Vec3 0 0 0), fresh = 3, calls = 0\<rparr> =
    (\<lparr>treePos = 3, scatterPos = 5, currentPos = 6, scale = 7, rotation = 8,
       rotationSpeed = - 1/100, color = ''#7a1f1f'', ribbonColor = ''#d4af37''\<rparr>,
     (1, True),
     \<lparr>cell = (\<lambda>_. Vec3 0 0 0)(3 := Vec3 (11/4) (- 7) 0, 4 := Vec3 0 0 0, 5 := Vec3 0 0 0,
         6 := Vec3 0 0 0, 7 := Vec3 (3/5) (3/5) (3/5), 8 := Vec3 0 0 0),
       fresh = 9, calls = 11\<rparr>)"
  by (simp add: giftBoxItem_def placeScatter_def sample_def new_object_def random_def
       getGiftBoxPoint_def Let_def scatterLoop_example pickColor_def boxPalette_def ribbonColorFor_def)

lemma sample_zero:
  "sample (getRandomSpherePoint r) (\<lambda>_. 0) \<lparr>cell = c, fresh = f, calls = k\<rparr>
     = (f, \<lparr>cell = c(f := Vec3 0 0 0), fresh = Suc f, calls = k + 3\<rparr>)"
  by (simp add: sample_def new_object_def getRandomSpherePoint_def Let_def)

lemma scatterLoop_all_rejected:
  assumes "a + n = 50" and "c (scatterPos d) = Vec3 0 0 0" and "\<forall>r\<ge>f. c r = Vec3 0 0 0"
  shows "scatterLoop [d] (\<lambda>_. 0) s False a \<lparr>cell = c, fresh = f, calls = k\<rparr>
       = (if n = 0 then s else f + n - 1, False, 50,
          \<lparr>cell = c, fresh = f + n, calls = k + 3 * n\<rparr>)"
  using assms
proof (induction n arbitrary: a s f k)
  case 0
  then show ?case by (subst scatterLoop.simps) simp
next
  case (Suc n)
  have a: "a < 50" using Suc.prems(1) by simp
  have cf: "c(f := Vec3 0 0 0) = c" using Suc.prems(3) by (simp add: fun_upd_idem)
  have f0: "c f = Vec3 0 0 0" using Suc.prems(3) by simp
  have step: "scatterLoop [d] (\<lambda>_. 0) s False a \<lparr>cell = c, fresh = f, calls = k\<rparr>
       = scatterLoop [d] (\<lambda>_. 0) f False (Suc a) \<lparr>cell = c, fresh = Suc f, calls = k + 3\<rparr>"
    using a Suc.prems(2) f0
    by (subst scatterLoop.simps) (simp add: sample_zero cf distanceTo_def minDistance_def)
  have "scatterLoop [d] (\<lambda>_. 0) f False (Suc a) \<lparr>cell = c, fresh = Suc f, calls = k + 3\<rparr>
       = (if n = 0 then f else Suc f + n - 1, False, 50,
          \<lparr>cell = c, fresh = Suc f + n, calls = k + 3 + 3 * n\<rparr>)"
    using Suc.prems by (intro Suc.IH) simp_all
  then show ?case unfolding step by (simp add: algebra_simps)
qed


lemma giftBoxItem_crowded_example:
  "giftBoxItem
     [\<lparr>treePos = 3, scatterPos = 5, currentPos = 6, scale = 7, rotation = 8,
       rotationSpeed = - 1/100, color = ''#7a1f1f'', ribbonColor = ''#d4af37''\<rparr>]
     (\<lambda>_. 0)
     \<lparr>cell = (\<lambda>_. Vec3 0 0 0)(3 := Vec3 (11/4) (- 7) 0, 4 := Vec3 0 0 0, 5 := Vec3 0 0 0,
         6 := Vec3 0 0 0, 7 := Vec3 (3/5) (3/5) (3/5), 8 := Vec3 0 0 0),
       fresh = 9, calls = 11\<rparr> =
    (\<lparr>treePos = 9, scatterPos = 61, currentPos = 62, scale = 63, rotation = 64,
       rotationSpeed = - 1/100, color = ''#7a1f1f'', ribbonColor = ''#d4af37''\<rparr>,
     (50, False),
     \<lparr>cell = (\<lambda>_. Vec3 0 0 0)(3 := Vec3 (11/4) (- 7) 0, 4 := Vec3 0 0 0, 5 := Vec3 0 0 0,
         6 := Vec3 0 0 0, 7 := Vec3 (3/5) (3/5) (3/5), 8 := Vec3 0 0 0,
         9 := Vec3 (11/4) (- 7) 0, 10 := Vec3 0 0 0, 61 := Vec3 0 0 0, 62 := Vec3 0 0 0,
         63 := Vec3 (3/5) (3/5) (3/5), 64 := Vec3 0 0 0),
       fresh = 65, calls = 172\<rparr>)"
proof -
  let ?d = "\<lparr>treePos = 3, scatterPos = 5, currentPos = 6, scale = 7, rotation = 8,
       rotationSpeed = - (1/100), color = ''#7a1f1f'', ribbonColor = ''#d4af37''\<rparr>"
  let ?c = "(\<lambda>_::nat. Vec3 0 0 0)(3 := Vec3 (11/4) (- 7) 0, 4 := Vec3 0 0 0, 5 := Vec3 0 0 0,
         6 := Vec3 0 0 0, 7 := Vec3 (3/5) (3/5) (3/5), 8 := Vec3 0 0 0,
         9 := Vec3 (11/4) (- 7) 0, 10 := Vec3 0 0 0)"
  have n: "(0::nat) + 50 = 50" by simp
  have c5: "?c (scatterPos ?d) = Vec3 0 0 0" by simp
  have hi: "\<forall>r\<ge>11. ?c r = Vec3 0 0 0" by auto
  note loop = scatterLoop_all_rejected [OF n c5 hi, of 10 14]
  show ?thesis
    by (simp add: giftBoxItem_def placeScatter_def sample_def new_object_def random_def
       getGiftBoxPoint_def getRandomSpherePoint_def Let_def loop pickColor_def boxPalette_def
       ribbonColorFor_def)
      (simp add: fun_eq_iff)
qed


theorem giftBoxData_placement_witness:
  "(let X = giftBoxData 2 (\<lambda>_. 0) \<lparr>cell = (\<lambda>_. Vec3 0 0 0), fresh = 3, calls = 0\<rparr>;
        items = fst X; trace = fst (snd X); w = snd (snd X)
    in map scatterPos items = [5, 61]
     \<and> trace = [(1, True), (50, False)]
     \<and> calls w = 172
     \<and> randomCalls trace = 172
     \<and> placed (\<lambda>_. 0) w items trace 0
     \<and> placed (\<lambda>_. 0) w items trace 1
     \<and> tested (\<lambda>_. 0) 0 w items trace 0
     \<and> tested (\<lambda>_. 0) 0 w items trace 1
     \<and> separated w (take 0 items) (candidate (\<lambda>_. 0) 3 0)
     \<and> \<not> separated w (take 1 items) (candidate (\<lambda>_. 0) 14 49)
     \<and> distanceTo (cell w 61) (cell w 5) = 0)"
proof -
  let ?w0 = "\<lparr>cell = (\<lambda>_. Vec3 0 0 0), fresh = 3, calls = 0\<rparr>"
  let ?X = "giftBoxData 2 (\<lambda>_. 0) ?w0"
  have ev: "?X =
    ([\<lparr>treePos = 3, scatterPos = 5, currentPos = 6, scale = 7, rotation = 8,
       rotationSpeed = - 1/100, color = ''#7a1f1f'', ribbonColor = ''#d4af37''\<rparr>,
      \<lparr>treePos = 9, scatterPos = 61, currentPos = 62, scale = 63, rotation = 64,
       rotationSpeed = - 1/100, color = ''#7a1f1f'', ribbonColor = ''#d4af37''\<rparr>],
     [(1, True), (50, False)],
     \<lparr>cell = (\<lambda>_. Vec3 0 0 0)(3 := Vec3 (11/4) (- 7) 0, 4 := Vec3 0 0 0, 5 := Vec3 0 0 0,
         6 := Vec3 0 0 0, 7 := Vec3 (3/5) (3/5) (3/5), 8 := Vec3 0 0 0,
         9 := Vec3 (11/4) (- 7) 0, 10 := Vec3 0 0 0, 61 := Vec3 0 0 0, 62 := Vec3 0 0 0,
         63 := Vec3 (3/5) (3/5) (3/5), 64 := Vec3 0 0 0),
       fresh = 65, calls = 172\<rparr>)"
    unfolding numeral_2_eq_2 giftBoxData.simps Let_def prod.case giftBoxItem_example append_Nil
      giftBoxItem_crowded_example
    by simp
  have all: "(\<forall>i<2. placed (\<lambda>_. 0) (snd (snd ?X)) (fst ?X) (fst (snd ?X)) i)
      \<and> (\<forall>i<2. tested (\<lambda>_. 0) 0 (snd (snd ?X)) (fst ?X) (fst (snd ?X)) i)"
    using giftBoxData_placement [of 2 "\<lambda>_. 0" ?w0]
    unfolding Let_def split_beta by simp
  have pl: "placed (\<lambda>_. 0) (snd (snd ?X)) (fst ?X) (fst (snd ?X)) 0"
    "placed (\<lambda>_. 0) (snd (snd ?X)) (fst ?X) (fst (snd ?X)) 1"
    using all by simp_all
  have te: "tested (\<lambda>_. 0) 0 (snd (snd ?X)) (fst ?X) (fst (snd ?X)) 0"
    "tested (\<lambda>_. 0) 0 (snd (snd ?X)) (fst ?X) (fst (snd ?X)) 1"
    using all by simp_all
  have a: "map scatterPos (fst ?X) = [5, 61]" unfolding ev by simp
  have b: "fst (snd ?X) = [(1, True), (50, False)]" unfolding ev by simp
  have c: "calls (snd (snd ?X)) = 172" unfolding ev by simp
  have r: "randomCalls (fst (snd ?X)) = 172" unfolding b by (simp add: randomCalls_def)
  have s0: "separated (snd (snd ?X)) (take 0 (fst ?X)) (candidate (\<lambda>_. 0) 3 0)"
    by (simp add: separated_def)
  have s1: "\<not> separated (snd (snd ?X)) (take 1 (fst ?X)) (candidate (\<lambda>_. 0) 14 49)"
    unfolding ev
    by (simp add: separated_def candidate_def getRandomSpherePoint_def Let_def distanceTo_def
          minDistance_def)
  have d: "distanceTo (cell (snd (snd ?X)) 61) (cell (snd (snd ?X)) 5) = 0"
    unfolding ev by (simp add: distanceTo_def)
  show ?thesis unfolding Let_def using a b c r d pl te s0 s1 by blast
qed

text \<open>
  The constructors establish the hypothesis of the frame condition: the objects of the
  built instances are pairwise different and different from objects allocated before
  the construction, such as those of \<open>tempObject\<close>.
\<close>

lemma separate_fresh:
  assumes tmp: "distinct [position3D t, rotation3D t, scale3D t]"
    and lo: "position3D t < n" "rotation3D t < n" "scale3D t < n"
    and rng: "\<forall>d \<in> set items. \<forall>r \<in> set (refs d). n \<le> r"
    and dist: "distinct (concat (map refs items))"
  shows "separate t items"
proof -
  have "n \<le> r" if "r \<in> set (concat (map refs items))" for r
    using that rng by auto
  then have "set [position3D t, rotation3D t, scale3D t] \<inter> set (concat (map refs items)) = {}"
    using lo by fastforce
  then show ?thesis
    unfolding separate_def using tmp dist by (simp only: distinct_append)
qed

lemma giftBoxData_separate:
  assumes "giftBoxData count rnd w = (items, trace, w')"
    and "distinct [position3D t, rotation3D t, scale3D t]"
    and "position3D t < fresh w" and "rotation3D t < fresh w" and "scale3D t < fresh w"
  shows "separate t items"
proof -
  have p: "\<forall>d \<in> set items. \<forall>r \<in> set (refs d). fresh w \<le> r \<and> r < fresh w'"
    "distinct (concat (map refs items))"
    using giftBoxData_props [OF assms(1)] by blast+
  have "\<forall>d \<in> set items. \<forall>r \<in> set (refs d). fresh w \<le> r"
    using p(1) by blast
  then show ?thesis
    using assms(2-5) p(2) by (intro separate_fresh [where n = "fresh w"])
qed

lemma ornamentItem_props:
  assumes res: "ornamentItem sm ph rnd w = (item, w')"
  shows "refs item = [fresh w, fresh w + 1, fresh w + 2, fresh w + 3, fresh w + 4]"
    and "fresh w' = fresh w + 5"
proof -
  obtain tPos w1 where e1: "sample (getSpiralPoint 11 4.8 (- 1) ph) rnd w = (tPos, w1)"
    by (cases "sample (getSpiralPoint 11 4.8 (- 1) ph) rnd w")
  obtain sPos w2 where e2: "sample (getRandomSpherePoint 20) rnd w1 = (sPos, w2)"
    by (cases "sample (getRandomSpherePoint 20) rnd w1")
  obtain r1 w3 where e3: "random rnd w2 = (r1, w3)" by (cases "random rnd w2")
  obtain cur w4 where e4: "new_object (cell w3 sPos) w3 = (cur, w4)"
    by (cases "new_object (cell w3 sPos) w3")
  obtain sc w5 where
    e5: "new_object (Vec3 ((r1 * 0.4 + 0.6) * sm) ((r1 * 0.4 + 0.6) * sm) ((r1 * 0.4 + 0.6) * sm)) w4
           = (sc, w5)"
    by (cases "new_object (Vec3 ((r1 * 0.4 + 0.6) * sm) ((r1 * 0.4 + 0.6) * sm)
                 ((r1 * 0.4 + 0.6) * sm)) w4")
  obtain r2 w6 where e6: "random rnd w5 = (r2, w6)" by (cases "random rnd w5")
  obtain r3 w7 where e7: "random rnd w6 = (r3, w7)" by (cases "random rnd w6")
  obtain rot w8 where e8: "new_object (Vec3 (r2 * pi) (r3 * pi) 0) w7 = (rot, w8)"
    by (cases "new_object (Vec3 (r2 * pi) (r3 * pi) 0) w7")
  obtain r4 w9 where e9: "random rnd w8 = (r4, w9)" by (cases "random rnd w8")
  have "ornamentItem sm ph rnd w =
      (\<lparr>treePos = tPos, scatterPos = sPos, currentPos = cur, scale = sc, rotation = rot,
        rotationSpeed = (r4 - 0.5) * 0.02\<rparr>, w9)"
    unfolding ornamentItem_def Let_def e1 e2 e3 e4 e5 e6 e7 e8 e9 prod.case ..
  then have eq: "treePos item = tPos" "scatterPos item = sPos" "currentPos item = cur"
    "scale item = sc" "rotation item = rot" "w' = w9"
    using res by auto
  have x1: "tPos = fresh w" "fresh w1 = Suc (fresh w)"
    using sample_props [OF e1] sampler_calls(3) by simp_all
  have x2: "sPos = fresh w1" "fresh w2 = Suc (fresh w1)"
    using sample_props [OF e2] sampler_calls(1) by simp_all
  have x3: "fresh w3 = fresh w2" using random_props [OF e3] by simp
  have x4: "cur = fresh w3" "fresh w4 = Suc (fresh w3)"
    using new_object_props [OF e4] by simp_all
  have x5: "sc = fresh w4" "fresh w5 = Suc (fresh w4)"
    using new_object_props [OF e5] by simp_all
  have x6: "fresh w6 = fresh w5" using random_props [OF e6] by simp
  have x7: "fresh w7 = fresh w6" using random_props [OF e7] by simp
  have x8: "rot = fresh w7" "fresh w8 = Suc (fresh w7)"
    using new_object_props [OF e8] by simp_all
  have x9: "fresh w9 = fresh w8" using random_props [OF e9] by simp
  show "refs item = [fresh w, fresh w + 1, fresh w + 2, fresh w + 3, fresh w + 4]"
    unfolding refs_def eq using x1 x2 x3 x4 x5 x6 x7 x8 by simp
  show "fresh w' = fresh w + 5"
    unfolding eq using x1 x2 x3 x4 x5 x6 x7 x8 x9 by simp
qed

lemma ornamentData_props:
  assumes "ornamentData count sm ph rnd w = (items, w')"
  shows "fresh w \<le> fresh w'
     \<and> (\<forall>d \<in> set items. \<forall>r \<in> set (refs d). fresh w \<le> r \<and> r < fresh w')
     \<and> distinct (concat (map refs items))"
  using assms
proof (induction count arbitrary: items w')
  case 0
  then show ?case by simp
next
  case (Suc n)
  obtain items0 w1 where e0: "ornamentData n sm ph rnd w = (items0, w1)"
    by (cases "ornamentData n sm ph rnd w")
  obtain item w2 where e1: "ornamentItem sm ph rnd w1 = (item, w2)"
    by (cases "ornamentItem sm ph rnd w1")
  have "ornamentData (Suc n) sm ph rnd w = (items0 @ [item], w2)"
    unfolding ornamentData.simps Let_def e0 e1 prod.case ..
  then have eq: "items = items0 @ [item]" "w' = w2"
    using Suc.prems by simp_all
  have ih: "fresh w \<le> fresh w1"
    "\<forall>d \<in> set items0. \<forall>r \<in> set (refs d). fresh w \<le> r \<and> r < fresh w1"
    "distinct (concat (map refs items0))"
    using Suc.IH [OF e0] by blast+
  note ip = ornamentItem_props [OF e1]
  have own: "distinct (refs item)" "\<forall>r \<in> set (refs item). fresh w1 \<le> r \<and> r < fresh w2"
    unfolding ip by simp_all
  have p1: "fresh w \<le> fresh w2" using ih(1) ip(2) by simp
  have p3: "\<forall>d \<in> set (items0 @ [item]). \<forall>r \<in> set (refs d). fresh w \<le> r \<and> r < fresh w2"
  proof (intro ballI)
    fix d r
    assume d: "d \<in> set (items0 @ [item])" and r: "r \<in> set (refs d)"
    show "fresh w \<le> r \<and> r < fresh w2"
    proof (cases "d \<in> set items0")
      case True
      then have "fresh w \<le> r \<and> r < fresh w1" using ih(2) r by blast
      then show ?thesis using ip(2) by linarith
    next
      case False
      then have "d = item" using d by simp
      then have "fresh w1 \<le> r \<and> r < fresh w2" using own(2) r by blast
      then show ?thesis using ih(1) by linarith
    qed
  qed
  have disj: "set (concat (map refs items0)) \<inter> set (refs item) = {}"
  proof -
    have "r < fresh w1" if "r \<in> set (concat (map refs items0))" for r
      using that ih(2) by auto
    moreover have "fresh w1 \<le> r" if "r \<in> set (refs item)" for r
      using that own(2) by blast
    ultimately show ?thesis by fastforce
  qed
  have p4: "distinct (concat (map refs (items0 @ [item])))"
    using ih(3) own(1) disj by simp
  show ?case unfolding eq using p1 p3 p4 by blast
qed

lemma ornamentData_separate:
  assumes "ornamentData count sm ph rnd w = (items, w')"
    and "distinct [position3D t, rotation3D t, scale3D t]"
    and "position3D t < fresh w" and "rotation3D t < fresh w" and "scale3D t < fresh w"
  shows "separate t items"
proof -
  have p: "\<forall>d \<in> set items. \<forall>r \<in> set (refs d). fresh w \<le> r \<and> r < fresh w'"
    "distinct (concat (map refs items))"
    using ornamentData_props [OF assms(1)] by blast+
  have "\<forall>d \<in> set items. \<forall>r \<in> set (refs d). fresh w \<le> r"
    using p(1) by blast
  then show ?thesis
    using assms(2-5) p(2) by (intro separate_fresh [where n = "fresh w"])
qed


subsection \<open>The per-frame update of the instances\<close>

lemma set_cell_simps:
  "cell (set_cell r v w) = (cell w)(r := v)" "fresh (set_cell r v w) = fresh w"
  "calls (set_cell r v w) = calls w"
  by (simp_all add: set_cell_def)

lemma ornament_step_frame:
  assumes "r \<noteq> currentPos d" "r \<noteq> rotation d" "r \<noteq> position3D t" "r \<noteq> rotation3D t" "r \<noteq> scale3D t"
  shows "cell (fst (ornament_step t tt lf el d i w)) r = cell w r"
  using assms by (simp add: ornament_step_def Let_def set_cell_simps)

lemma ornament_step_counters:
  "fresh (fst (ornament_step t tt lf el d i w)) = fresh w"
  "calls (fst (ornament_step t tt lf el d i w)) = calls w"
  by (simp_all add: ornament_step_def Let_def set_cell_simps)

lemma giftBox_step_frame:
  assumes "r \<noteq> currentPos d" "r \<noteq> rotation d" "r \<noteq> position3D t" "r \<noteq> rotation3D t" "r \<noteq> scale3D t"
  shows "cell (fst (giftBox_step t tt lf el d i w)) r = cell w r"
  using assms by (simp add: giftBox_step_def Let_def set_cell_simps)

lemma giftBox_step_counters:
  "fresh (fst (giftBox_step t tt lf el d i w)) = fresh w"
  "calls (fst (giftBox_step t tt lf el d i w)) = calls w"
  by (simp_all add: giftBox_step_def Let_def set_cell_simps)

lemma forEach_frame:
  assumes "\<And>d i w. d \<in> set ds \<Longrightarrow> cell (fst (f d i w)) r = cell w r"
  shows "cell (fst (forEach f ds i w)) r = cell w r"
  using assms
proof (induction ds arbitrary: i w)
  case Nil
  then show ?case by simp
next
  case (Cons d ds)
  have step: "cell (fst (f d i w)) r = cell w r"
    using Cons.prems by simp
  have IH: "cell (fst (forEach f ds (Suc i) (fst (f d i w)))) r = cell (fst (f d i w)) r"
    by (rule Cons.IH) (simp add: Cons.prems)
  show ?case using step IH by (simp add: split_beta Let_def)
qed

lemma forEach_counters:
  assumes "\<And>d i w. fresh (fst (f d i w)) = fresh w"
    and "\<And>d i w. calls (fst (f d i w)) = calls w"
  shows "fresh (fst (forEach f ds i w)) = fresh w \<and> calls (fst (forEach f ds i w)) = calls w"
  by (induction ds arbitrary: i w) (simp_all add: split_beta Let_def assms)

lemma written_member:
  assumes "r \<notin> written t data" and "d \<in> set data"
  shows "r \<noteq> currentPos d" "r \<noteq> rotation d" "r \<noteq> position3D t" "r \<noteq> rotation3D t"
    "r \<noteq> scale3D t"
  using assms by (auto simp: written_def)

lemma giftBox_forEach_frame:
  assumes "r \<notin> written t data"
  shows "cell (fst (forEach (giftBox_step t tt lf el) data i w)) r = cell w r"
  by (rule forEach_frame) (rule giftBox_step_frame; rule written_member [OF assms])

lemma ornament_forEach_frame:
  assumes "r \<notin> written t data"
  shows "cell (fst (forEach (ornament_step t tt lf el) data i w)) r = cell w r"
  by (rule forEach_frame) (rule ornament_step_frame; rule written_member [OF assms])


lemma refs_distinct:
  assumes "distinct (refs d)"
  shows "treePos d \<noteq> currentPos d" "treePos d \<noteq> rotation d"
    "scatterPos d \<noteq> currentPos d" "scatterPos d \<noteq> rotation d"
    "scale d \<noteq> currentPos d" "scale d \<noteq> rotation d" "currentPos d \<noteq> rotation d"
  using assms by (auto simp: refs_def)

lemma separate_static:
  assumes sep: "separate t data" and d: "d \<in> set data"
    and x: "x = scatterPos d \<or> x = treePos d \<or> x = scale d"
  shows "x \<notin> written t data"
proof -
  obtain pre post where data: "data = pre @ d # post"
    using d by (auto dest: split_list)
  let ?T = "[position3D t, rotation3D t, scale3D t]"
  let ?P = "concat (map refs pre)" and ?Q = "concat (map refs post)"
  have D: "distinct (?T @ ?P @ refs d @ ?Q)"
    using sep by (simp add: separate_def data)
  have own: "distinct (refs d)" using D by simp
  have dT: "set (refs d) \<inter> set ?T = {}" using D by auto
  have dP: "set (refs d) \<inter> set ?P = {}" using D by auto
  have dQ: "set (refs d) \<inter> set ?Q = {}" using D by auto
  have xin: "x \<in> set (refs d)" using x refs_members by metis
  have xo: "x \<noteq> currentPos d \<and> x \<noteq> rotation d"
    using x
  proof (elim disjE)
    assume "x = scatterPos d"
    then show ?thesis using refs_distinct(3,4) [OF own] by simp
  next
    assume "x = treePos d"
    then show ?thesis using refs_distinct(1,2) [OF own] by simp
  next
    assume "x = scale d"
    then show ?thesis using refs_distinct(5,6) [OF own] by simp
  qed
  have xT: "x \<notin> {position3D t, rotation3D t, scale3D t}"
    using xin dT by auto
  have xe: "x \<noteq> currentPos e \<and> x \<noteq> rotation e" if e: "e \<in> set data" for e
  proof -
    consider "e \<in> set pre" | "e = d" | "e \<in> set post"
      using e data by auto
    then show ?thesis
    proof cases
      case 1
      then have "set (refs e) \<subseteq> set ?P" by (rule refs_in_concat)
      then have "currentPos e \<in> set ?P" "rotation e \<in> set ?P"
        using refs_members by blast+
      then show ?thesis using xin dP by blast
    next
      case 2
      then show ?thesis using xo by simp
    next
      case 3
      then have "set (refs e) \<subseteq> set ?Q" by (rule refs_in_concat)
      then have "currentPos e \<in> set ?Q" "rotation e \<in> set ?Q"
        using refs_members by blast+
      then show ?thesis using xin dQ by blast
    qed
  qed
  show ?thesis
    using xT xe by (auto simp: written_def)
qed

lemma frame_static:
  assumes sep: "separate t data"
    and fr: "\<And>r. r \<notin> written t data \<Longrightarrow> cell w' r = cell w r"
    and d: "d \<in> set data"
  shows "cell w' (scatterPos d) = cell w (scatterPos d)
       \<and> cell w' (treePos d) = cell w (treePos d)
       \<and> cell w' (scale d) = cell w (scale d)"
proof -
  have "scatterPos d \<notin> written t data" "treePos d \<notin> written t data"
    "scale d \<notin> written t data"
    using separate_static [OF sep d] by simp_all
  then show ?thesis using fr by simp
qed

text \<open>
  C9.  Frame condition of the per-frame update.  When the objects of the instances and
  of \<open>tempObject\<close> are pairwise different objects, as the constructors make them, a
  frame of the gift boxes and a frame of the ornaments, for any \<open>delta\<close>, elapsed
  time and target state, assign only to the \<open>currentPos\<close> and \<open>rotation\<close> objects
  of the instances and to the objects of \<open>tempObject\<close>: every other object keeps its
  contents, so for every instance the \<open>scatterPos\<close>, \<open>treePos\<close> and \<open>scale\<close>
  objects are the same before and after; nothing is allocated and no random number is
  drawn.  The records themselves (the references, \<open>rotationSpeed\<close>, \<open>color\<close>,
  \<open>ribbonColor\<close>) are not assigned by a frame at all: the frame functions return
  no records.  The hypothesis speaks of the references only, not of the store, so it
  holds again before the next frame.  For a weight \<open>\<ge> 0\<close> the ornament frame is
  defined.
\<close>

theorem frame_condition:
  assumes "separate tempObject boxes" and "separate tempObject ornaments"
  shows
    "(let (w', out) = giftBox_useFrame mounted treeState elapsedTime delta tempObject boxes w
      in fresh w' = fresh w \<and> calls w' = calls w
       \<and> (\<forall>r. r \<notin> written tempObject boxes \<longrightarrow> cell w' r = cell w r)
       \<and> (\<forall>d \<in> set boxes. cell w' (scatterPos d) = cell w (scatterPos d)
                           \<and> cell w' (treePos d) = cell w (treePos d)
                           \<and> cell w' (scale d) = cell w (scale d)))
     \<and> (0 \<le> weight \<longrightarrow>
          ornament_useFrame mounted' treeState weight elapsedTime delta tempObject ornaments w
            \<noteq> None)
     \<and> (\<forall>w' out.
          ornament_useFrame mounted' treeState weight elapsedTime delta tempObject ornaments w
            = Some (w', out) \<longrightarrow>
          fresh w' = fresh w \<and> calls w' = calls w
          \<and> (\<forall>r. r \<notin> written tempObject ornaments \<longrightarrow> cell w' r = cell w r)
          \<and> (\<forall>d \<in> set ornaments. cell w' (scatterPos d) = cell w (scatterPos d)
                                  \<and> cell w' (treePos d) = cell w (treePos d)
                                  \<and> cell w' (scale d) = cell w (scale d)))"
proof -
  define wb where "wb = fst (giftBox_useFrame mounted treeState elapsedTime delta tempObject boxes w)"
  have b1: "fresh wb = fresh w \<and> calls wb = calls w"
    unfolding wb_def giftBox_useFrame_def Let_def
    using forEach_counters [of "giftBox_step tempObject (treeState = TREE_SHAPE)
        (clamp (delta * 1.2) 0 1) elapsedTime", OF giftBox_step_counters]
    by simp
  have b2: "cell wb r = cell w r" if "r \<notin> written tempObject boxes" for r
    unfolding wb_def giftBox_useFrame_def Let_def
    using giftBox_forEach_frame [OF that] by simp
  have b3: "cell wb (scatterPos d) = cell w (scatterPos d)
       \<and> cell wb (treePos d) = cell w (treePos d)
       \<and> cell wb (scale d) = cell w (scale d)" if "d \<in> set boxes" for d
    using assms(1) b2 that by (rule frame_static)
  have box: "(let (w', out) = giftBox_useFrame mounted treeState elapsedTime delta tempObject boxes w
      in fresh w' = fresh w \<and> calls w' = calls w
       \<and> (\<forall>r. r \<notin> written tempObject boxes \<longrightarrow> cell w' r = cell w r)
       \<and> (\<forall>d \<in> set boxes. cell w' (scatterPos d) = cell w (scatterPos d)
                           \<and> cell w' (treePos d) = cell w (treePos d)
                           \<and> cell w' (scale d) = cell w (scale d)))"
    using b1 b2 b3 unfolding wb_def by (simp add: split_beta)
  have total: "ornament_useFrame mounted' treeState weight elapsedTime delta tempObject ornaments w
            \<noteq> None" if "0 \<le> weight"
    using that by (simp add: ornament_useFrame_def ornamentLerpFactor_def Let_def)
  have orn: "fresh w' = fresh w \<and> calls w' = calls w
          \<and> (\<forall>r. r \<notin> written tempObject ornaments \<longrightarrow> cell w' r = cell w r)
          \<and> (\<forall>d \<in> set ornaments. cell w' (scatterPos d) = cell w (scatterPos d)
                                  \<and> cell w' (treePos d) = cell w (treePos d)
                                  \<and> cell w' (scale d) = cell w (scale d))"
    if res: "ornament_useFrame mounted' treeState weight elapsedTime delta tempObject ornaments w
            = Some (w', out)" for w' out
  proof -
    have w': "w' = w \<or> (\<exists>lf. w' = fst (forEach (ornament_step tempObject (treeState = TREE_SHAPE) lf
                  elapsedTime) ornaments 0 w))"
    proof (cases mounted')
      case False
      then show ?thesis using res by (simp add: ornament_useFrame_def)
    next
      case True
      then obtain lf where "ornamentLerpFactor delta weight = Some lf"
        and "forEach (ornament_step tempObject (treeState = TREE_SHAPE) lf elapsedTime)
               ornaments 0 w = (w', out)"
        using res by (auto simp: ornament_useFrame_def Let_def split: option.splits)
      then have "w' = fst (forEach (ornament_step tempObject (treeState = TREE_SHAPE) lf
                  elapsedTime) ornaments 0 w)"
        by simp
      then show ?thesis by blast
    qed
    have o1: "fresh w' = fresh w \<and> calls w' = calls w"
      using w' forEach_counters [of "ornament_step tempObject (treeState = TREE_SHAPE) lf elapsedTime"
          for lf, OF ornament_step_counters]
      by auto
    have o2: "cell w' r = cell w r" if "r \<notin> written tempObject ornaments" for r
      using w' ornament_forEach_frame [OF that] by auto
    have o3: "cell w' (scatterPos d) = cell w (scatterPos d)
       \<and> cell w' (treePos d) = cell w (treePos d)
       \<and> cell w' (scale d) = cell w (scale d)" if "d \<in> set ornaments" for d
      using assms(2) o2 that by (rule frame_static)
    show ?thesis using o1 o2 o3 by blast
  qed
  show ?thesis using box total orn by blast
qed


theorem frame_condition_witness:
  "separate \<lparr>position3D = 0, rotation3D = 1, scale3D = 2\<rparr>
     [\<lparr>treePos = 3, scatterPos = 4, currentPos = 5, scale = 6, rotation = 7,
       rotationSpeed = 1/100, color = ''#7a1f1f'', ribbonColor = ''#d4af37''\<rparr>]
   \<and> separate \<lparr>position3D = 0, rotation3D = 1, scale3D = 2\<rparr>
     [\<lparr>treePos = 3, scatterPos = 4, currentPos = 5, scale = 6, rotation = 7,
       rotationSpeed = 1/100\<rparr>]
   \<and> cell (fst (giftBox_useFrame True TREE_SHAPE 0 (1/2)
        \<lparr>position3D = 0, rotation3D = 1, scale3D = 2\<rparr>
        [\<lparr>treePos = 3, scatterPos = 4, currentPos = 5, scale = 6, rotation = 7,
          rotationSpeed = 1/100, color = ''#7a1f1f'', ribbonColor = ''#d4af37''\<rparr>]
        \<lparr>cell = (\<lambda>_. Vec3 0 0 0)(3 := Vec3 2 4 6, 4 := Vec3 1 1 1), fresh = 8, calls = 0\<rparr>)) 4
       = Vec3 1 1 1
   \<and> cell (fst (giftBox_useFrame True TREE_SHAPE 0 (1/2)
        \<lparr>position3D = 0, rotation3D = 1, scale3D = 2\<rparr>
        [\<lparr>treePos = 3, scatterPos = 4, currentPos = 5, scale = 6, rotation = 7,
          rotationSpeed = 1/100, color = ''#7a1f1f'', ribbonColor = ''#d4af37''\<rparr>]
        \<lparr>cell = (\<lambda>_. Vec3 0 0 0)(3 := Vec3 2 4 6, 4 := Vec3 1 1 1), fresh = 8, calls = 0\<rparr>)) 5
       = Vec3 (6/5) (12/5) (18/5)"
proof -
  let ?t = "\<lparr>position3D = 0, rotation3D = 1, scale3D = 2\<rparr>"
  let ?b = "\<lparr>treePos = 3, scatterPos = 4, currentPos = 5, scale = 6, rotation = 7,
       rotationSpeed = 1/100, color = ''#7a1f1f'', ribbonColor = ''#d4af37''\<rparr>"
  let ?o = "\<lparr>treePos = 3, scatterPos = 4, currentPos = 5, scale = 6, rotation = 7,
       rotationSpeed = 1/100\<rparr>"
  let ?w = "\<lparr>cell = (\<lambda>_. Vec3 0 0 0)(3 := Vec3 2 4 6, 4 := Vec3 1 1 1), fresh = 8, calls = 0\<rparr>"
  have sb: "separate ?t [?b]" by (simp add: separate_def refs_def)
  have so: "separate ?t [?o]" by (simp add: separate_def refs_def)
  have cur: "cell (fst (giftBox_useFrame True TREE_SHAPE 0 (1/2) ?t [?b] ?w)) 5
       = Vec3 (6/5) (12/5) (18/5)"
    by (simp add: giftBox_useFrame_def giftBox_step_def clamp_def lerp_def add_y_def
        set_cell_def Let_def)
  have "cell (fst (giftBox_useFrame True TREE_SHAPE 0 (1/2) ?t [?b] ?w)) 4 = cell ?w 4"
    using frame_condition [OF sb so, of True TREE_SHAPE 0 "1/2" ?w]
    by (simp add: split_beta)
  then show ?thesis using sb so cur by simp
qed

lemma ornament_step_tree:
  assumes "separate t [d]"
  shows "cell (fst (ornament_step t True lf el d i w)) (currentPos d)
           = lerp (cell w (currentPos d)) (cell w (treePos d)) lf"
    and "fst (snd (ornament_step t True lf el d i w))
           = lerp (cell w (currentPos d)) (cell w (treePos d)) lf"
proof -
  have D: "distinct (position3D t # rotation3D t # scale3D t # refs d)"
    using assms by (simp add: separate_def)
  have n: "currentPos d \<noteq> rotation d" "currentPos d \<noteq> position3D t"
     "currentPos d \<noteq> rotation3D t" "currentPos d \<noteq> scale3D t"
     "position3D t \<noteq> rotation3D t" "position3D t \<noteq> scale3D t" "rotation d \<noteq> position3D t"
    using D by (auto simp: refs_def)
  show "cell (fst (ornament_step t True lf el d i w)) (currentPos d)
           = lerp (cell w (currentPos d)) (cell w (treePos d)) lf"
    using n by (simp add: ornament_step_def Let_def set_cell_simps)
  show "fst (snd (ornament_step t True lf el d i w))
           = lerp (cell w (currentPos d)) (cell w (treePos d)) lf"
    using n by (simp add: ornament_step_def Let_def set_cell_simps)
qed

lemma giftBox_step_tree:
  assumes "separate t [d]"
  shows "cell (fst (giftBox_step t True lf el d i w)) (currentPos d)
           = lerp (cell w (currentPos d)) (cell w (treePos d)) lf"
    and "fst (snd (giftBox_step t True lf el d i w))
           = lerp (cell w (currentPos d)) (cell w (treePos d)) lf"
proof -
  have D: "distinct (position3D t # rotation3D t # scale3D t # refs d)"
    using assms by (simp add: separate_def)
  have n: "currentPos d \<noteq> rotation d" "currentPos d \<noteq> position3D t"
     "currentPos d \<noteq> rotation3D t" "currentPos d \<noteq> scale3D t"
     "position3D t \<noteq> rotation3D t" "position3D t \<noteq> scale3D t" "rotation d \<noteq> position3D t"
    using D by (auto simp: refs_def)
  show "cell (fst (giftBox_step t True lf el d i w)) (currentPos d)
           = lerp (cell w (currentPos d)) (cell w (treePos d)) lf"
    using n by (simp add: giftBox_step_def Let_def set_cell_simps)
  show "fst (snd (giftBox_step t True lf el d i w))
           = lerp (cell w (currentPos d)) (cell w (treePos d)) lf"
    using n by (simp add: giftBox_step_def Let_def set_cell_simps)
qed

text \<open>
  C3, as the code has it.  At progress 1, for every phase in \<open>[0, 1)\<close> and every
  time: the garland shader emits the target position itself; the foliage shader adds
  none of its two sway terms, but its breathing term remains at full scale, so it
  emits \<open>targetPos + normalize(targetPos) * sin (uTime * 1.5 + phase * 10) * 0.03\<close>
  (undefined for a target at the origin).  The instanced ornaments and gift boxes
  have no progress value: their sinusoid is added only while the target state is
  SCATTERED, and with the tree as target the emitted position is
  \<open>lerp(currentPos, treePos, lerpFactor)\<close> with nothing added.
\<close>

theorem idle_overlay_at_full_progress:
  assumes "0 \<le> phase" and "phase < 1"
    and "separate tempObject [orn]" and "separate tempObject [box]"
  shows "spiralVertexShader_pos uTime 1 aScatterPos aTreePos phase = aTreePos
       \<and> vertexShader_pos uTime 1 aScatterPos aTreePos phase =
           (case normalize aTreePos of
              None \<Rightarrow> None
            | Some n \<Rightarrow>
                Some (Vec3 (vx aTreePos + vx n * (sin (uTime * 1.5 + phase * 10.0) * 0.03))
                           (vy aTreePos + vy n * (sin (uTime * 1.5 + phase * 10.0) * 0.03))
                           (vz aTreePos + vz n * (sin (uTime * 1.5 + phase * 10.0) * 0.03))))
       \<and> fst (snd (ornament_step tempObject True lerpFactor elapsedTime orn i w))
           = lerp (cell w (currentPos orn)) (cell w (treePos orn)) lerpFactor
       \<and> fst (snd (giftBox_step tempObject True lerpFactor elapsedTime box i w))
           = lerp (cell w (currentPos box)) (cell w (treePos box)) lerpFactor"
proof -
  have g: "spiralVertexShader_pos uTime 1 aScatterPos aTreePos phase = aTreePos"
    using spiralVertexShader_delayedT_ends(1) [OF assms(1,2)]
    by (simp add: spiralVertexShader_pos_def spiralVertexShader_blend_def mix_one)
  have b: "vertexShader_blend 1 aScatterPos aTreePos phase = aTreePos"
    using vertexShader_delayedT_ends(1) [OF assms(1,2)]
    by (simp add: vertexShader_blend_def mix_one)
  have f: "vertexShader_pos uTime 1 aScatterPos aTreePos phase =
           (case normalize aTreePos of
              None \<Rightarrow> None
            | Some n \<Rightarrow>
                Some (Vec3 (vx aTreePos + vx n * (sin (uTime * 1.5 + phase * 10.0) * 0.03))
                           (vy aTreePos + vy n * (sin (uTime * 1.5 + phase * 10.0) * 0.03))
                           (vz aTreePos + vz n * (sin (uTime * 1.5 + phase * 10.0) * 0.03))))"
    by (simp add: vertexShader_pos_def b vertexShader_breath_def Let_def split: option.splits)
  show ?thesis
    using g f ornament_step_tree(2) [OF assms(3)] giftBox_step_tree(2) [OF assms(4)]
    by simp
qed

theorem idle_overlay_at_full_progress_witness:
  "separate \<lparr>position3D = 0, rotation3D = 1, scale3D = 2\<rparr>
     [\<lparr>treePos = 3, scatterPos = 4, currentPos = 5, scale = 6, rotation = 7,
       rotationSpeed = 1/100\<rparr>]
   \<and> separate \<lparr>position3D = 0, rotation3D = 1, scale3D = 2\<rparr>
     [\<lparr>treePos = 3, scatterPos = 4, currentPos = 5, scale = 6, rotation = 7,
       rotationSpeed = 1/100, color = ''#7a1f1f'', ribbonColor = ''#d4af37''\<rparr>]
   \<and> spiralVertexShader_pos 7 1 (Vec3 7 8 9) (Vec3 1 2 3) (1/2) = Vec3 1 2 3
   \<and> vertexShader_pos 0 1 (Vec3 7 8 9) (Vec3 2 0 0) 0 = Some (Vec3 2 0 0)
   \<and> fst (snd (ornament_step \<lparr>position3D = 0, rotation3D = 1, scale3D = 2\<rparr> True (1/2) 9
        \<lparr>treePos = 3, scatterPos = 4, currentPos = 5, scale = 6, rotation = 7,
         rotationSpeed = 1/100\<rparr> 0
        \<lparr>cell = (\<lambda>_. Vec3 0 0 0)(3 := Vec3 2 4 6), fresh = 8, calls = 0\<rparr>))
       = Vec3 1 2 3"
proof -
  let ?t = "\<lparr>position3D = 0, rotation3D = 1, scale3D = 2\<rparr>"
  let ?b = "\<lparr>treePos = 3, scatterPos = 4, currentPos = 5, scale = 6, rotation = 7,
       rotationSpeed = 1/100, color = ''#7a1f1f'', ribbonColor = ''#d4af37''\<rparr>"
  let ?o = "\<lparr>treePos = 3, scatterPos = 4, currentPos = 5, scale = 6, rotation = 7,
       rotationSpeed = 1/100\<rparr>"
  let ?w = "\<lparr>cell = (\<lambda>_. Vec3 0 0 0)(3 := Vec3 2 4 6), fresh = 8, calls = 0\<rparr>"
  have sb: "separate ?t [?b]" by (simp add: separate_def refs_def)
  have so: "separate ?t [?o]" by (simp add: separate_def refs_def)
  have h: "(0::real) \<le> 1/2" "(1/2::real) < 1" "(0::real) \<le> 0" "(0::real) < 1" by simp_all
  have a: "spiralVertexShader_pos 7 1 (Vec3 7 8 9) (Vec3 1 2 3) (1/2) = Vec3 1 2 3"
    using idle_overlay_at_full_progress [OF h(1,2) so sb] by simp
  have c: "fst (snd (ornament_step ?t True (1/2) 9 ?o 0 ?w)) = Vec3 1 2 3"
    using idle_overlay_at_full_progress [OF h(1,2) so sb, of _ _ _ "1/2" 9 0 ?w]
    by (simp add: lerp_def)
  have f: "vertexShader_pos 0 1 (Vec3 7 8 9) (Vec3 2 0 0) 0 = Some (Vec3 2 0 0)"
    using idle_overlay_at_full_progress [OF h(3,4) so sb, of 0 "Vec3 7 8 9" "Vec3 2 0 0"]
    by (simp add: normalize_def length3_def)
  show ?thesis using sb so a c f by simp
qed

text \<open>
  C3, as the spec states it, fails for the foliage: at progress 1, time \<open>pi / 3\<close> and
  phase 0 the blended position of a point with target \<open>(1, 0, 0)\<close> is the target,
  and the shader emits \<open>(1.03, 0, 0)\<close>.
\<close>

theorem foliage_breathes_at_full_progress:
  "vertexShader_blend 1 (Vec3 0 0 0) (Vec3 1 0 0) 0 = Vec3 1 0 0
   \<and> vertexShader_pos (pi / 3) 1 (Vec3 0 0 0) (Vec3 1 0 0) 0 = Some (Vec3 (103/100) 0 0)
   \<and> vertexShader_pos (pi / 3) 1 (Vec3 0 0 0) (Vec3 1 0 0) 0
       \<noteq> Some (vertexShader_blend 1 (Vec3 0 0 0) (Vec3 1 0 0) 0)"
  by (simp add: vertexShader_pos_def vertexShader_blend_def vertexShader_delayedT_def
      easeInOutCubic_one clamp_def mix_def normalize_def length3_def vertexShader_breath_def
      Let_def)

end
